theory Spec2Isabelle
  imports Complex_Main "HOL-Library.Log_Nat"
begin

section \<open>Errors\<close>

text \<open>
  The errors a call into the channel model can end with. \<open>RangeError\<close> is thrown by
  \<open>ensureProperResolution\<close>; \<open>TypeError\<close> is what JavaScript raises on a property
  read from \<open>undefined\<close>; \<open>ParseError\<close> and \<open>InvalidResolution\<close> are raised by the
  Entity parser and by the DMX value scaler.
\<close>

datatype error = RangeError | TypeError | ParseError | InvalidResolution

section \<open>JavaScript numbers\<close>

text \<open>
  A JavaScript number is an IEEE 754 double: a finite value, which is a rational, an
  infinity or \<open>NaN\<close>. (The two zeros are one value here; the program never divides by
  zero, the one place where they differ.)
\<close>

datatype double = Finite rat | PosInf | NegInf | NaN

definition pow2 :: "int \<Rightarrow> rat" where
  "pow2 k = (if 0 \<le> k then 2 ^ nat k else 1 / 2 ^ nat (- k))"

text \<open>The exponent of a positive rational \<open>q\<close>: the \<open>e\<close> with \<open>2 ^ e \<le> q < 2 ^ (e + 1)\<close>.\<close>

definition exponent_of :: "rat \<Rightarrow> int" where
  "exponent_of q =
     (case quotient_of q of
        (a, b) \<Rightarrow> (let k = bitlen a - bitlen b in if pow2 k \<le> q then k else k - 1))"

definition round_half_even :: "rat \<Rightarrow> int" where
  "round_half_even q =
     (let f = \<lfloor>q\<rfloor>; d = q - of_int f in
      if d < 1 / 2 then f
      else if 1 / 2 < d then f + 1
      else if even f then f else f + 1)"

text \<open>
  Rounding to the nearest double, ties to the even significand: 53 bits of significand
  at the exponent of the value, which is at least -1022 (below it the doubles are
  subnormal and evenly spaced), and an infinity when the rounded value reaches
  \<open>2 ^ 1024\<close>.
\<close>

definition round_double :: "rat \<Rightarrow> double" where
  "round_double q =
     (if q = 0 then Finite 0
      else (let e = max (exponent_of \<bar>q\<bar>) (- 1022);
                u = pow2 (e - 52);
                v = of_int (round_half_even (q / u)) * u
            in if pow2 1024 \<le> \<bar>v\<bar> then (if 0 < q then PosInf else NegInf)
               else Finite v))"

text \<open>
  The operations the channel uses: \<open>Math.pow(256, n)\<close> for a count \<open>n\<close>, \<open>x - 1\<close>,
  \<open>x / 100\<close>, \<open>x * y\<close> and \<open>Math.floor(x)\<close>. Each is the exact result rounded to the
  nearest double.
\<close>

definition Math_pow_256 :: "nat \<Rightarrow> double" where
  "Math_pow_256 n = round_double (256 ^ n)"

definition minus_1 :: "double \<Rightarrow> double" where
  "minus_1 x = (case x of Finite a \<Rightarrow> round_double (a - 1) | _ \<Rightarrow> x)"

definition divided_by_100 :: "double \<Rightarrow> double" where
  "divided_by_100 x = (case x of Finite a \<Rightarrow> round_double (a / 100) | _ \<Rightarrow> x)"

fun times_double :: "double \<Rightarrow> double \<Rightarrow> double" where
  "times_double (Finite a) (Finite b) = round_double (a * b)"
| "times_double NaN y = NaN"
| "times_double x NaN = NaN"
| "times_double (Finite a) PosInf = (if a = 0 then NaN else if 0 < a then PosInf else NegInf)"
| "times_double (Finite a) NegInf = (if a = 0 then NaN else if 0 < a then NegInf else PosInf)"
| "times_double PosInf (Finite b) = (if b = 0 then NaN else if 0 < b then PosInf else NegInf)"
| "times_double NegInf (Finite b) = (if b = 0 then NaN else if 0 < b then NegInf else PosInf)"
| "times_double PosInf PosInf = PosInf"
| "times_double PosInf NegInf = NegInf"
| "times_double NegInf PosInf = NegInf"
| "times_double NegInf NegInf = PosInf"

definition Math_floor :: "double \<Rightarrow> double" where
  "Math_floor x = (case x of Finite a \<Rightarrow> Finite (of_int \<lfloor>a\<rfloor>) | _ \<Rightarrow> x)"

section \<open>Values read from a fixture's JSON\<close>

text \<open>
  A JSON value of the \<open>defaultValue\<close> and \<open>highlightValue\<close> fields: a number or a
  string. A number of the record is a finite double, given by its value.
\<close>

datatype json_value = JNumber rat | JString string

text \<open>
  The values of the field \<open>dmxValueResolution\<close> in the input interface; they are the
  three keys of the table \<open>resolutionStringToResolution\<close>.
\<close>

datatype resolution_string = Res_8bit | Res_16bit | Res_24bit

text \<open>
  Modelled from the spec: \<open>Wheel.js\<close> and \<open>Capability.js\<close> are not among the sources.
  The spec names what a capability exposes to its channel (type, color, wheels,
  shutter effect, \<open>isStep\<close>, \<open>isInverted\<close>, \<open>helpWanted\<close>, the switch mapping) but not how it
  derives them from its record, so the record carries them as data. A wheel reference
  that does not resolve is \<open>None\<close> (JavaScript \<open>null\<close>).
\<close>

record Wheel =
  wheel_type :: string

record capability_json =
  j_dmxRange :: "(double \<times> double) option"
  j_type :: string
  j_color :: "string option"
  j_wheels :: "Wheel option list"
  j_shutterEffect :: "string option"
  j_isStep :: bool
  j_isInverted :: bool
  j_helpWanted :: "string option"
  j_switchChannels :: "(string \<times> string) list"

text \<open>
  \<open>new Capability(jsonObject, resolution, channel)\<close>: the record, the resolution its DMX
  range is declared in, and the owning channel (a back-reference, kept as its key).
\<close>

record Capability =
  cap_jsonObject :: capability_json
  cap_resolution :: nat
  cap_channel :: string

abbreviation cap_type :: "Capability \<Rightarrow> string" where
  "cap_type cap \<equiv> j_type (cap_jsonObject cap)"

abbreviation cap_color :: "Capability \<Rightarrow> string option" where
  "cap_color cap \<equiv> j_color (cap_jsonObject cap)"

abbreviation cap_wheels :: "Capability \<Rightarrow> Wheel option list" where
  "cap_wheels cap \<equiv> j_wheels (cap_jsonObject cap)"

abbreviation cap_shutterEffect :: "Capability \<Rightarrow> string option" where
  "cap_shutterEffect cap \<equiv> j_shutterEffect (cap_jsonObject cap)"

abbreviation cap_isStep :: "Capability \<Rightarrow> bool" where
  "cap_isStep cap \<equiv> j_isStep (cap_jsonObject cap)"

abbreviation cap_isInverted :: "Capability \<Rightarrow> bool" where
  "cap_isInverted cap \<equiv> j_isInverted (cap_jsonObject cap)"

abbreviation cap_helpWanted :: "Capability \<Rightarrow> string option" where
  "cap_helpWanted cap \<equiv> j_helpWanted (cap_jsonObject cap)"

abbreviation cap_switchChannels :: "Capability \<Rightarrow> (string \<times> string) list" where
  "cap_switchChannels cap \<equiv> j_switchChannels (cap_jsonObject cap)"

abbreviation cap_dmxRange :: "Capability \<Rightarrow> (double \<times> double) option" where
  "cap_dmxRange cap \<equiv> j_dmxRange (cap_jsonObject cap)"

text \<open>
  The channel's record, with the fields and types of the input interface; an absent
  field is \<open>None\<close>.
\<close>

record channel_json =
  j_name :: "string option"
  j_fineChannelAliases :: "string list option"
  j_dmxValueResolution :: "resolution_string option"
  j_defaultValue :: "json_value option"
  j_highlightValue :: "json_value option"
  j_constant :: "bool option"
  j_precedence :: "string option"
  j_capability :: "capability_json option"
  j_capabilities :: "capability_json list option"

text \<open>
  Modelled from the spec: \<open>FineChannel.js\<close> and \<open>SwitchingChannel.js\<close> are not among
  the sources. Both are built from an alias and the channel that defines them, held as
  a back-reference (its key).
\<close>

record FineChannel =
  fine_key :: string
  fine_coarseChannel :: string

record SwitchingChannel =
  switching_key :: string
  switching_triggerChannel :: string

section \<open>The DMX value scaler and the Entity parser\<close>

text \<open>
  Modelled from the spec: \<open>scale-dmx-values.js\<close> is not among the sources. Scaling up
  multiplies by \<open>256 ^ (to - from)\<close>, scaling down is the floor of the division by
  \<open>256 ^ (from - to)\<close>, and a resolution that is not positive is rejected. The result is
  a JavaScript number: the double nearest to the value the spec gives. The spec is
  silent on a value that is not finite; the model returns it as it is.
\<close>

definition scaleDmxValue :: "double \<Rightarrow> int \<Rightarrow> int \<Rightarrow> error + double" where
  "scaleDmxValue dmxValue currentResolution desiredResolution =
     (if currentResolution \<le> 0 \<or> desiredResolution \<le> 0 then Inl InvalidResolution
      else (case dmxValue of
              Finite q \<Rightarrow>
                if currentResolution \<le> desiredResolution
                then Inr (round_double (q * 256 ^ nat (desiredResolution - currentResolution)))
                else Inr (round_double
                            (of_int \<lfloor>q / 256 ^ nat (currentResolution - desiredResolution)\<rfloor>))
            | _ \<Rightarrow> Inr dmxValue))"

text \<open>
  Modelled from the spec: \<open>Entity.js\<close> is not among the sources. An Entity is a number
  with an optional unit. A plain number parses to itself without a unit; a string
  parses when it is a decimal number followed by a unit, and its number is the double
  nearest to the decimal. The spec leaves the list of units and the keywords to a
  glossary it does not contain; the model recognises the units the spec names, and
  every other string is a parse error.
\<close>

record Entity =
  number :: double
  unit :: "string option"

definition is_digit :: "char \<Rightarrow> bool" where
  "is_digit c \<longleftrightarrow> (48::nat) \<le> of_char c \<and> (of_char c :: nat) \<le> 57"

definition digits_to_int :: "string \<Rightarrow> int" where
  "digits_to_int ds = foldl (\<lambda>n c. 10 * n + (of_char c - 48)) 0 ds"

definition parse_unsigned :: "string \<Rightarrow> (rat \<times> string) option" where
  "parse_unsigned s =
     (let whole = takeWhile is_digit s; rest = dropWhile is_digit s in
      if whole = [] then None
      else (case rest of
              c # rest' \<Rightarrow>
                if c = CHR ''.'' then
                  (let frac_digits = takeWhile is_digit rest'; u = dropWhile is_digit rest' in
                   if frac_digits = [] then None
                   else Some (of_int (digits_to_int whole)
                                + of_int (digits_to_int frac_digits) / 10 ^ length frac_digits, u))
                else Some (of_int (digits_to_int whole), rest)
            | [] \<Rightarrow> Some (of_int (digits_to_int whole), rest)))"

definition parse_number :: "string \<Rightarrow> (rat \<times> string) option" where
  "parse_number s =
     (case s of
        c # s' \<Rightarrow>
          if c = CHR ''-'' then map_option (\<lambda>(q, u). (- q, u)) (parse_unsigned s')
          else parse_unsigned s
      | [] \<Rightarrow> None)"

definition entity_units :: "string list" where
  "entity_units = [''%'', ''s'', ''ms'', ''deg'', ''Hz'']"

definition createFromEntityString :: "json_value \<Rightarrow> error + Entity" where
  "createFromEntityString v =
     (case v of
        JNumber q \<Rightarrow> Inr \<lparr>number = Finite q, unit = None\<rparr>
      | JString s \<Rightarrow>
          (case parse_number s of
             None \<Rightarrow> Inl ParseError
           | Some (q, u) \<Rightarrow>
               if u \<in> set entity_units then Inr \<lparr>number = round_double q, unit = Some u\<rparr>
               else Inl ParseError))"

section \<open>The coarse channel\<close>

text \<open>
  The memo table \<open>_cache\<close>: one slot per derived property, \<open>None\<close> while the property
  has not been computed. (\<open>color\<close> caches \<open>null\<close> as \<open>Some None\<close>.)
\<close>

record Cache =
  c_type :: "string option"
  c_color :: "string option option"
  c_fineChannels :: "FineChannel list option"
  c_dmxValueResolution :: "nat option"
  c_defaultValuePerResolution :: "(nat \<times> double) list option"
  c_highlightValuePerResolution :: "(nat \<times> double) list option"
  c_isInverted :: "bool option"
  c_canCrossfade :: "bool option"
  c_switchingChannelAliases :: "string list option"
  c_switchingChannels :: "SwitchingChannel list option"
  c_switchToChannelKeys :: "string list option"
  c_capabilities :: "Capability list option"
  c_isHelpWanted :: "bool option"

definition empty_cache :: Cache where
  "empty_cache =
     \<lparr>c_type = None, c_color = None, c_fineChannels = None, c_dmxValueResolution = None,
      c_defaultValuePerResolution = None, c_highlightValuePerResolution = None,
      c_isInverted = None, c_canCrossfade = None, c_switchingChannelAliases = None,
      c_switchingChannels = None, c_switchToChannelKeys = None, c_capabilities = None,
      c_isHelpWanted = None\<rparr>"

text \<open>
  The object: its key (set by the constructor of \<open>AbstractChannel\<close>), \<open>_jsonObject\<close>,
  \<open>_cache\<close> and \<open>_fixture\<close>. The fixture is a back-reference the channel never looks
  into, so its type is left open.
\<close>

record 'f CoarseChannel =
  key :: string
  jsonObject :: channel_json
  cache :: Cache
  fixture :: 'f

text \<open>The setter of \<open>jsonObject\<close>, and the constructor, which calls it.\<close>

definition set_jsonObject :: "channel_json \<Rightarrow> 'f CoarseChannel \<Rightarrow> 'f CoarseChannel" where
  "set_jsonObject j ch = ch\<lparr>jsonObject := j, cache := empty_cache\<rparr>"

definition new_CoarseChannel :: "string \<Rightarrow> channel_json \<Rightarrow> 'f \<Rightarrow> 'f CoarseChannel" where
  "new_CoarseChannel k j f = \<lparr>key = k, jsonObject = j, cache = empty_cache, fixture = f\<rparr>"

definition RESOLUTION_8BIT :: nat where "RESOLUTION_8BIT = 1"
definition RESOLUTION_16BIT :: nat where "RESOLUTION_16BIT = 2"
definition RESOLUTION_24BIT :: nat where "RESOLUTION_24BIT = 3"
definition RESOLUTION_32BIT :: nat where "RESOLUTION_32BIT = 4"

definition name :: "'f CoarseChannel \<Rightarrow> string" where
  "name ch = (case j_name (jsonObject ch) of
                None \<Rightarrow> key ch
              | Some n \<Rightarrow> if n = [] then key ch else n)"

definition fineChannelAliases :: "'f CoarseChannel \<Rightarrow> string list" where
  "fineChannelAliases ch =
     (case j_fineChannelAliases (jsonObject ch) of None \<Rightarrow> [] | Some as \<Rightarrow> as)"

definition maxResolution :: "'f CoarseChannel \<Rightarrow> nat" where
  "maxResolution ch = 1 + length (fineChannelAliases ch)"

definition maxDmxBound :: "'f CoarseChannel \<Rightarrow> double" where
  "maxDmxBound ch = minus_1 (Math_pow_256 (maxResolution ch))"

text \<open>
  \<open>ensureProperResolution\<close>: the argument is any number. \<open>r % 1\<close> is only reached for
  \<open>r \<ge> 1\<close>, where it is the fractional part.
\<close>

definition ensureProperResolution :: "'f CoarseChannel \<Rightarrow> rat \<Rightarrow> error + unit" where
  "ensureProperResolution ch uncheckedResolution =
     (if uncheckedResolution > of_nat (maxResolution ch)
         \<or> uncheckedResolution < of_nat RESOLUTION_8BIT
         \<or> frac uncheckedResolution \<noteq> 0
      then Inl RangeError else Inr ())"

text \<open>
  The getters below memoise in \<open>_cache\<close>, so each takes the object and returns its
  result together with the object as the call leaves it. A getter that can throw
  returns \<open>Inl\<close> of the error, and the object as it was when the error was raised.
\<close>

definition resolutionStringToResolution :: "resolution_string \<Rightarrow> nat" where
  "resolutionStringToResolution s =
     (case s of
        Res_8bit \<Rightarrow> RESOLUTION_8BIT
      | Res_16bit \<Rightarrow> RESOLUTION_16BIT
      | Res_24bit \<Rightarrow> RESOLUTION_24BIT)"

definition dmxValueResolution :: "'f CoarseChannel \<Rightarrow> nat \<times> 'f CoarseChannel" where
  "dmxValueResolution ch =
     (case c_dmxValueResolution (cache ch) of
        Some r \<Rightarrow> (r, ch)
      | None \<Rightarrow>
          (let r = (case j_dmxValueResolution (jsonObject ch) of
                      Some s \<Rightarrow> resolutionStringToResolution s
                    | None \<Rightarrow> maxResolution ch)
           in (r, ch\<lparr>cache := (cache ch)\<lparr>c_dmxValueResolution := Some r\<rparr>\<rparr>)))"

text \<open>
  \<open>this._jsonObject.capabilities.map(cap => new Capability(cap, this.dmxValueResolution, this))\<close>:
  the getter of the resolution is called once for each element.
\<close>

fun new_Capabilities ::
  "capability_json list \<Rightarrow> 'f CoarseChannel \<Rightarrow> Capability list \<times> 'f CoarseChannel" where
  "new_Capabilities [] ch = ([], ch)"
| "new_Capabilities (cap # caps) ch =
     (case dmxValueResolution ch of
        (r, ch1) \<Rightarrow>
          (case new_Capabilities caps ch1 of
             (cs, ch2) \<Rightarrow>
               (\<lparr>cap_jsonObject = cap, cap_resolution = r, cap_channel = key ch1\<rparr> # cs, ch2)))"

text \<open>
  \<open>Object.assign({ dmxRange: [0, bound] }, capability)\<close>: the range of the record wins
  when it has one.
\<close>

definition assign_dmxRange ::
  "double \<times> double \<Rightarrow> capability_json \<Rightarrow> capability_json" where
  "assign_dmxRange rng cap =
     (case j_dmxRange cap of None \<Rightarrow> cap\<lparr>j_dmxRange := Some rng\<rparr> | Some _ \<Rightarrow> cap)"

definition capabilities ::
  "'f CoarseChannel \<Rightarrow> (error + Capability list) \<times> 'f CoarseChannel" where
  "capabilities ch =
     (case c_capabilities (cache ch) of
        Some caps \<Rightarrow> (Inr caps, ch)
      | None \<Rightarrow>
          (case j_capability (jsonObject ch) of
             Some cap \<Rightarrow>
               (case dmxValueResolution ch of
                  (r, ch1) \<Rightarrow>
                    (let capabilityData =
                           assign_dmxRange (Finite 0, minus_1 (Math_pow_256 r)) cap in
                     case dmxValueResolution ch1 of
                       (r', ch2) \<Rightarrow>
                         (let caps = [\<lparr>cap_jsonObject = capabilityData, cap_resolution = r',
                                       cap_channel = key ch2\<rparr>]
                          in (Inr caps, ch2\<lparr>cache := (cache ch2)\<lparr>c_capabilities := Some caps\<rparr>\<rparr>))))
           | None \<Rightarrow>
               (case j_capabilities (jsonObject ch) of
                  None \<Rightarrow> (Inl TypeError, ch)
                | Some js \<Rightarrow>
                    (case new_Capabilities js ch of
                       (caps, ch1) \<Rightarrow>
                         (Inr caps, ch1\<lparr>cache := (cache ch1)\<lparr>c_capabilities := Some caps\<rparr>\<rparr>)))))"

subsection \<open>The channel type\<close>

text \<open>
  An entry of \<open>channelTypeConstraints\<close>: the required capability types and, for three
  entries, a predicate. Each predicate of the source reads \<open>channel.capabilities\<close> once
  and nothing else of the channel, so it is kept as a function of that list; the getter
  call is made where the predicate is called.
\<close>

record constraints =
  required :: "string list"
  predicate :: "(Capability list \<Rightarrow> bool) option"

definition plain :: "string list \<Rightarrow> constraints" where
  "plain tags = \<lparr>required = tags, predicate = None\<rparr>"

definition multi_color_predicate :: "Capability list \<Rightarrow> bool" where
  "multi_color_predicate caps =
     list_all (\<lambda>cap. cap_type cap \<noteq> ''WheelSlot''
                 \<or> (case cap_wheels cap of
                       Some w # _ \<Rightarrow> wheel_type w = ''Color''
                     | _ \<Rightarrow> False)) caps"

definition gobo_predicate :: "Capability list \<Rightarrow> bool" where
  "gobo_predicate caps =
     list_all (\<lambda>cap. list_all (\<lambda>wheel. case wheel of
                                         Some w \<Rightarrow> wheel_type w = ''Gobo''
                                       | None \<Rightarrow> False) (cap_wheels cap)) caps"

definition strobe_predicate :: "Capability list \<Rightarrow> bool" where
  "strobe_predicate caps =
     list_ex (\<lambda>cap. cap_type cap = ''ShutterStrobe''
                \<and> cap_shutterEffect cap \<notin> set [Some ''Open'', Some ''Closed'']) caps"

definition channelTypeConstraints :: "(string \<times> constraints) list" where
  "channelTypeConstraints =
     [(''Single Color'', plain [''ColorIntensity'']),
      (''Multi-Color'', \<lparr>required = [''ColorPreset'', ''WheelSlot''],
                         predicate = Some multi_color_predicate\<rparr>),
      (''Pan'', plain [''Pan'', ''PanContinuous'']),
      (''Tilt'', plain [''Tilt'', ''TiltContinuous'']),
      (''Focus'', plain [''Focus'']),
      (''Zoom'', plain [''Zoom'']),
      (''Iris'', plain [''Iris'', ''IrisEffect'']),
      (''Gobo'', \<lparr>required = [''WheelSlot'', ''WheelShake''],
                  predicate = Some gobo_predicate\<rparr>),
      (''Prism'', plain [''Prism'']),
      (''Color Temperature'', plain [''ColorTemperature'']),
      (''Effect'', plain [''Effect'', ''EffectParameter'', ''Frost'', ''FrostEffect'',
                          ''SoundSensitivity'', ''WheelSlot'']),
      (''Strobe'', \<lparr>required = [''ShutterStrobe''], predicate = Some strobe_predicate\<rparr>),
      (''Shutter'', plain [''ShutterStrobe'', ''BladeInsertion'', ''BladeRotation'',
                           ''BladeSystemRotation'']),
      (''Fog'', plain [''Fog'', ''FogOutput'', ''FogType'']),
      (''Speed'', plain [''StrobeSpeed'', ''StrobeDuration'', ''PanTiltSpeed'', ''EffectSpeed'',
                         ''EffectDuration'', ''BeamAngle'', ''BeamPosition'', ''PrismRotation'',
                         ''Rotation'', ''Speed'', ''Time'', ''WheelSlotRotation'',
                         ''WheelRotation'', ''WheelShake'']),
      (''Maintenance'', plain [''Maintenance'']),
      (''Intensity'', plain [''Intensity'', ''Generic'']),
      (''NoFunction'', plain [''NoFunction''])]"

text \<open>
  \<open>types.find(callback)\<close>: the callback reads \<open>this.capabilities\<close> for the required
  types, then calls the predicate when the entry has one (whether or not a required
  type is used), and the first entry for which both hold is the result.
\<close>

fun find_type ::
  "(string \<times> constraints) list \<Rightarrow> 'f CoarseChannel
     \<Rightarrow> (error + string option) \<times> 'f CoarseChannel" where
  "find_type [] ch = (Inr None, ch)"
| "find_type ((ty, cs) # types) ch =
     (case capabilities ch of
        (Inl e, ch1) \<Rightarrow> (Inl e, ch1)
      | (Inr caps, ch1) \<Rightarrow>
          (let requiredCapTypeUsed = list_ex (\<lambda>cap. cap_type cap \<in> set (required cs)) caps in
           case predicate cs of
             None \<Rightarrow>
               if requiredCapTypeUsed then (Inr (Some ty), ch1) else find_type types ch1
           | Some p \<Rightarrow>
               (case capabilities ch1 of
                  (Inl e, ch2) \<Rightarrow> (Inl e, ch2)
                | (Inr caps', ch2) \<Rightarrow>
                    if requiredCapTypeUsed \<and> p caps' then (Inr (Some ty), ch2)
                    else find_type types ch2)))"

definition type :: "'f CoarseChannel \<Rightarrow> (error + string) \<times> 'f CoarseChannel" where
  "type ch =
     (case c_type (cache ch) of
        Some t \<Rightarrow> (Inr t, ch)
      | None \<Rightarrow>
          (case find_type channelTypeConstraints ch of
             (Inl e, ch1) \<Rightarrow> (Inl e, ch1)
           | (Inr found, ch1) \<Rightarrow>
               (let t = (case found of
                           Some ty \<Rightarrow> if ty = [] then ''Unknown'' else ty
                         | None \<Rightarrow> ''Unknown'')
                in (Inr t, ch1\<lparr>cache := (cache ch1)\<lparr>c_type := Some t\<rparr>\<rparr>))))"

subsection \<open>Colour, fine channels, inversion and crossfading\<close>

definition color :: "'f CoarseChannel \<Rightarrow> (error + string option) \<times> 'f CoarseChannel" where
  "color ch =
     (case c_color (cache ch) of
        Some c \<Rightarrow> (Inr c, ch)
      | None \<Rightarrow>
          (case capabilities ch of
             (Inl e, ch1) \<Rightarrow> (Inl e, ch1)
           | (Inr caps, ch1) \<Rightarrow>
               (let c = (case find (\<lambda>cap. cap_type cap = ''ColorIntensity'') caps of
                           Some colorCap \<Rightarrow> cap_color colorCap
                         | None \<Rightarrow> None)
                in (Inr c, ch1\<lparr>cache := (cache ch1)\<lparr>c_color := Some c\<rparr>\<rparr>))))"

definition fineChannels :: "'f CoarseChannel \<Rightarrow> FineChannel list \<times> 'f CoarseChannel" where
  "fineChannels ch =
     (case c_fineChannels (cache ch) of
        Some fs \<Rightarrow> (fs, ch)
      | None \<Rightarrow>
          (let fs = map (\<lambda>alias. \<lparr>fine_key = alias, fine_coarseChannel = key ch\<rparr>)
                        (fineChannelAliases ch)
           in (fs, ch\<lparr>cache := (cache ch)\<lparr>c_fineChannels := Some fs\<rparr>\<rparr>)))"

definition isInverted :: "'f CoarseChannel \<Rightarrow> (error + bool) \<times> 'f CoarseChannel" where
  "isInverted ch =
     (case c_isInverted (cache ch) of
        Some b \<Rightarrow> (Inr b, ch)
      | None \<Rightarrow>
          (case capabilities ch of
             (Inl e, ch1) \<Rightarrow> (Inl e, ch1)
           | (Inr caps, ch1) \<Rightarrow>
               (let proportionalCaps = filter (\<lambda>cap. \<not> cap_isStep cap) caps;
                    b = (length proportionalCaps > 0 \<and> list_all cap_isInverted proportionalCaps)
                in (Inr b, ch1\<lparr>cache := (cache ch1)\<lparr>c_isInverted := Some b\<rparr>\<rparr>))))"

definition isConstant :: "'f CoarseChannel \<Rightarrow> bool" where
  "isConstant ch = (case j_constant (jsonObject ch) of None \<Rightarrow> False | Some b \<Rightarrow> b)"

text \<open>
  \<open>arr.every((cap, index, arr) => index + 1 === arr.length || cap.canCrossfadeTo(arr[index + 1]))\<close>.
  \<open>canCrossfadeTo\<close> is a method of \<open>Capability\<close>, whose code is not among the sources:
  it is a parameter.
\<close>

fun every_canCrossfadeTo ::
  "(Capability \<Rightarrow> Capability \<Rightarrow> bool) \<Rightarrow> Capability list \<Rightarrow> bool" where
  "every_canCrossfadeTo canCrossfadeTo [] = True"
| "every_canCrossfadeTo canCrossfadeTo [cap] = True"
| "every_canCrossfadeTo canCrossfadeTo (cap # next # arr) =
     (canCrossfadeTo cap next \<and> every_canCrossfadeTo canCrossfadeTo (next # arr))"

definition set_canCrossfade :: "bool \<Rightarrow> 'f CoarseChannel \<Rightarrow> 'f CoarseChannel" where
  "set_canCrossfade b ch = ch\<lparr>cache := (cache ch)\<lparr>c_canCrossfade := Some b\<rparr>\<rparr>"

definition canCrossfade ::
  "(Capability \<Rightarrow> Capability \<Rightarrow> bool) \<Rightarrow> 'f CoarseChannel
     \<Rightarrow> (error + bool) \<times> 'f CoarseChannel" where
  "canCrossfade canCrossfadeTo ch =
     (case c_canCrossfade (cache ch) of
        Some b \<Rightarrow> (Inr b, ch)
      | None \<Rightarrow>
          (case capabilities ch of
             (Inl e, ch1) \<Rightarrow> (Inl e, ch1)
           | (Inr caps, ch1) \<Rightarrow>
               if length caps = 1 then
                 (if isConstant ch1 then (Inr False, set_canCrossfade False ch1)
                  else (case type ch1 of
                          (Inl e, ch2) \<Rightarrow> (Inl e, ch2)
                        | (Inr t, ch2) \<Rightarrow>
                            (Inr (t \<noteq> ''NoFunction''),
                             set_canCrossfade (t \<noteq> ''NoFunction'') ch2)))
               else
                 (case capabilities ch1 of
                    (Inl e, ch2) \<Rightarrow> (Inl e, ch2)
                  | (Inr caps', ch2) \<Rightarrow>
                      if every_canCrossfadeTo canCrossfadeTo caps' then
                        (case capabilities ch2 of
                           (Inl e, ch3) \<Rightarrow> (Inl e, ch3)
                         | (Inr caps'', ch3) \<Rightarrow>
                             (let b = list_ex (\<lambda>cap. \<not> cap_isStep cap) caps''
                              in (Inr b, set_canCrossfade b ch3)))
                      else (Inr False, set_canCrossfade False ch2))))"

definition precedence :: "'f CoarseChannel \<Rightarrow> string" where
  "precedence ch = (case j_precedence (jsonObject ch) of Some p \<Rightarrow> p | None \<Rightarrow> ''LTP'')"

definition isHelpWanted :: "'f CoarseChannel \<Rightarrow> (error + bool) \<times> 'f CoarseChannel" where
  "isHelpWanted ch =
     (case c_isHelpWanted (cache ch) of
        Some b \<Rightarrow> (Inr b, ch)
      | None \<Rightarrow>
          (case capabilities ch of
             (Inl e, ch1) \<Rightarrow> (Inl e, ch1)
           | (Inr caps, ch1) \<Rightarrow>
               (let b = list_ex (\<lambda>cap. cap_helpWanted cap \<noteq> None) caps
                in (Inr b, ch1\<lparr>cache := (cache ch1)\<lparr>c_isHelpWanted := Some b\<rparr>\<rparr>))))"

text \<open>
  \<open>Object.keys(this.capabilities[0].switchChannels)\<close>: reading \<open>switchChannels\<close> of the
  first capability of an empty list is a \<open>TypeError\<close>.
\<close>

definition switchingChannelAliases ::
  "'f CoarseChannel \<Rightarrow> (error + string list) \<times> 'f CoarseChannel" where
  "switchingChannelAliases ch =
     (case c_switchingChannelAliases (cache ch) of
        Some as \<Rightarrow> (Inr as, ch)
      | None \<Rightarrow>
          (case capabilities ch of
             (Inl e, ch1) \<Rightarrow> (Inl e, ch1)
           | (Inr [], ch1) \<Rightarrow> (Inl TypeError, ch1)
           | (Inr (cap # _), ch1) \<Rightarrow>
               (let as = map fst (cap_switchChannels cap)
                in (Inr as, ch1\<lparr>cache := (cache ch1)\<lparr>c_switchingChannelAliases := Some as\<rparr>\<rparr>))))"

definition switchingChannels ::
  "'f CoarseChannel \<Rightarrow> (error + SwitchingChannel list) \<times> 'f CoarseChannel" where
  "switchingChannels ch =
     (case c_switchingChannels (cache ch) of
        Some scs \<Rightarrow> (Inr scs, ch)
      | None \<Rightarrow>
          (case switchingChannelAliases ch of
             (Inl e, ch1) \<Rightarrow> (Inl e, ch1)
           | (Inr as, ch1) \<Rightarrow>
               (let scs = map (\<lambda>alias. \<lparr>switching_key = alias,
                                         switching_triggerChannel = key ch1\<rparr>) as
                in (Inr scs, ch1\<lparr>cache := (cache ch1)\<lparr>c_switchingChannels := Some scs\<rparr>\<rparr>))))"

subsection \<open>Default and highlight values\<close>

definition hasDefaultValue :: "'f CoarseChannel \<Rightarrow> bool" where
  "hasDefaultValue ch \<longleftrightarrow> j_defaultValue (jsonObject ch) \<noteq> None"

definition hasHighlightValue :: "'f CoarseChannel \<Rightarrow> bool" where
  "hasHighlightValue ch \<longleftrightarrow> j_highlightValue (jsonObject ch) \<noteq> None"

text \<open>\<open>value || 0\<close>: an absent field, the number 0 and the empty string give 0.\<close>

definition or_zero :: "json_value option \<Rightarrow> json_value" where
  "or_zero v =
     (case v of
        None \<Rightarrow> JNumber 0
      | Some (JNumber q) \<Rightarrow> JNumber q
      | Some (JString s) \<Rightarrow> if s = [] then JNumber 0 else JString s)"

text \<open>\<open>Number.isInteger\<close>, on a field that may be absent.\<close>

definition isInteger :: "json_value option \<Rightarrow> bool" where
  "isInteger v = (case v of Some (JNumber q) \<Rightarrow> frac q = 0 | _ \<Rightarrow> False)"

text \<open>A value that \<open>Number.isInteger\<close> accepts, as the number it is.\<close>

definition number_of :: "json_value \<Rightarrow> double" where
  "number_of v = (case v of JNumber q \<Rightarrow> Finite q | JString _ \<Rightarrow> NaN)"

text \<open>
  The loop \<open>for (let i = 1; i <= this.maxResolution; i++)\<close> that fills the table of
  values per resolution. The source assigns an empty object to the cache slot before
  the loop and fills it in place; here the loop returns the table it has filled, with
  the error that stopped it if there is one, and the caller stores it. The keys \<open>i\<close>
  are assigned in increasing order, each once, so an assignment adds an entry at the
  end of the table.
\<close>

function scale_loop ::
  "double \<Rightarrow> nat \<Rightarrow> (nat \<times> double) list \<Rightarrow> 'f CoarseChannel
     \<Rightarrow> (error option \<times> (nat \<times> double) list) \<times> 'f CoarseChannel" where
  "scale_loop rawValue i table ch =
     (if i \<le> maxResolution ch then
        (case scaleDmxValue rawValue (int (fst (dmxValueResolution ch))) (int i) of
           Inl e \<Rightarrow> ((Some e, table), snd (dmxValueResolution ch))
         | Inr v \<Rightarrow>
             scale_loop rawValue (Suc i) (table @ [(i, v)]) (snd (dmxValueResolution ch)))
      else ((None, table), ch))"
  by pat_completeness auto
termination
  by (relation "measure (\<lambda>(rawValue, i, table, ch). Suc (maxResolution ch) - i)")
     (auto simp: dmxValueResolution_def maxResolution_def fineChannelAliases_def Let_def
        split: option.splits)

definition getDefaultValueWithResolution ::
  "rat \<Rightarrow> 'f CoarseChannel \<Rightarrow> (error + double option) \<times> 'f CoarseChannel" where
  "getDefaultValueWithResolution desiredResolution ch =
     (case ensureProperResolution ch desiredResolution of
        Inl e \<Rightarrow> (Inl e, ch)
      | Inr _ \<Rightarrow>
          (case c_defaultValuePerResolution (cache ch) of
             Some table \<Rightarrow> (Inr (map_of table (nat \<lfloor>desiredResolution\<rfloor>)), ch)
           | None \<Rightarrow>
               (let rawDefaultValue = or_zero (j_defaultValue (jsonObject ch));
                    resolved =
                      (if \<not> isInteger (Some rawDefaultValue) then
                         (case createFromEntityString rawDefaultValue of
                            Inl e \<Rightarrow> (Inl e, ch)
                          | Inr entity \<Rightarrow>
                              (let percentage = divided_by_100 (number entity) in
                               case dmxValueResolution ch of
                                 (r, ch1) \<Rightarrow>
                                   (Inr (Math_floor
                                           (times_double percentage
                                              (minus_1 (Math_pow_256 r)))), ch1)))
                       else (Inr (number_of rawDefaultValue), ch))
                in case resolved of
                     (Inl e, ch1) \<Rightarrow> (Inl e, ch1)
                   | (Inr rawValue, ch1) \<Rightarrow>
                       (case scale_loop rawValue 1 [] ch1 of
                          ((err, table), ch2) \<Rightarrow>
                            (let ch3 = ch2\<lparr>cache := (cache ch2)
                                           \<lparr>c_defaultValuePerResolution := Some table\<rparr>\<rparr>
                             in case err of
                                  Some e \<Rightarrow> (Inl e, ch3)
                                | None \<Rightarrow>
                                    (Inr (map_of table (nat \<lfloor>desiredResolution\<rfloor>)), ch3))))))"

definition defaultValue :: "'f CoarseChannel \<Rightarrow> (error + double option) \<times> 'f CoarseChannel" where
  "defaultValue ch = getDefaultValueWithResolution (of_nat (maxResolution ch)) ch"

definition getHighlightValueWithResolution ::
  "rat \<Rightarrow> 'f CoarseChannel \<Rightarrow> (error + double option) \<times> 'f CoarseChannel" where
  "getHighlightValueWithResolution desiredResolution ch =
     (case ensureProperResolution ch desiredResolution of
        Inl e \<Rightarrow> (Inl e, ch)
      | Inr _ \<Rightarrow>
          (case c_highlightValuePerResolution (cache ch) of
             Some table \<Rightarrow> (Inr (map_of table (nat \<lfloor>desiredResolution\<rfloor>)), ch)
           | None \<Rightarrow>
               (let rawHighlightValue = j_highlightValue (jsonObject ch);
                    resolved =
                      (if \<not> isInteger rawHighlightValue then
                         (case dmxValueResolution ch of
                            (r, ch1) \<Rightarrow>
                              (let maxDmxBoundInResolution = minus_1 (Math_pow_256 r) in
                               case rawHighlightValue of
                                 Some v \<Rightarrow>
                                   (case createFromEntityString v of
                                      Inl e \<Rightarrow> (Inl e, ch1)
                                    | Inr entity \<Rightarrow>
                                        (let percentage = divided_by_100 (number entity)
                                         in (Inr (Math_floor
                                                    (times_double percentage
                                                       maxDmxBoundInResolution)),
                                             ch1)))
                               | None \<Rightarrow> (Inr maxDmxBoundInResolution, ch1)))
                       else (Inr (case rawHighlightValue of
                                    Some v \<Rightarrow> number_of v
                                  | None \<Rightarrow> NaN), ch))
                in case resolved of
                     (Inl e, ch1) \<Rightarrow> (Inl e, ch1)
                   | (Inr rawValue, ch1) \<Rightarrow>
                       (case scale_loop rawValue 1 [] ch1 of
                          ((err, table), ch2) \<Rightarrow>
                            (let ch3 = ch2\<lparr>cache := (cache ch2)
                                           \<lparr>c_highlightValuePerResolution := Some table\<rparr>\<rparr>
                             in case err of
                                  Some e \<Rightarrow> (Inl e, ch3)
                                | None \<Rightarrow>
                                    (Inr (map_of table (nat \<lfloor>desiredResolution\<rfloor>)), ch3))))))"

definition highlightValue :: "'f CoarseChannel \<Rightarrow> (error + double option) \<times> 'f CoarseChannel" where
  "highlightValue ch = getHighlightValueWithResolution (of_nat (maxResolution ch)) ch"

section \<open>What the getters compute\<close>

text \<open>
  The value of each derived property as a function of the key and the record alone,
  without the cache. The getters are shown below to return these values from every
  state of the object in which the cache agrees with the record.
\<close>

definition declared_resolution :: "'f CoarseChannel \<Rightarrow> nat" where
  "declared_resolution ch =
     (case j_dmxValueResolution (jsonObject ch) of
        Some s \<Rightarrow> resolutionStringToResolution s
      | None \<Rightarrow> maxResolution ch)"

definition capability_list :: "'f CoarseChannel \<Rightarrow> error + Capability list" where
  "capability_list ch =
     (case j_capability (jsonObject ch) of
        Some cap \<Rightarrow>
          Inr [\<lparr>cap_jsonObject =
                  assign_dmxRange
                    (Finite 0, minus_1 (Math_pow_256 (declared_resolution ch))) cap,
                cap_resolution = declared_resolution ch, cap_channel = key ch\<rparr>]
      | None \<Rightarrow>
          (case j_capabilities (jsonObject ch) of
             None \<Rightarrow> Inl TypeError
           | Some js \<Rightarrow>
               Inr (map (\<lambda>cap. \<lparr>cap_jsonObject = cap, cap_resolution = declared_resolution ch,
                                cap_channel = key ch\<rparr>) js)))"

text \<open>
  An entry of the rule table matches a capability list when some capability has one of
  the entry's required types and the entry's predicate, when it has one, holds of the
  whole list.
\<close>

definition entry_matches :: "Capability list \<Rightarrow> constraints \<Rightarrow> bool" where
  "entry_matches caps cs \<longleftrightarrow>
     (\<exists>cap \<in> set caps. cap_type cap \<in> set (required cs))
     \<and> (case predicate cs of None \<Rightarrow> True | Some p \<Rightarrow> p caps)"

definition classify :: "Capability list \<Rightarrow> string" where
  "classify caps =
     (case find (\<lambda>entry. entry_matches caps (snd entry)) channelTypeConstraints of
        Some entry \<Rightarrow> fst entry
      | None \<Rightarrow> ''Unknown'')"

definition channel_type :: "'f CoarseChannel \<Rightarrow> error + string" where
  "channel_type ch =
     (case capability_list ch of Inl e \<Rightarrow> Inl e | Inr caps \<Rightarrow> Inr (classify caps))"

definition channel_color :: "'f CoarseChannel \<Rightarrow> error + string option" where
  "channel_color ch =
     (case capability_list ch of
        Inl e \<Rightarrow> Inl e
      | Inr caps \<Rightarrow>
          Inr (case find (\<lambda>cap. cap_type cap = ''ColorIntensity'') caps of
                 Some colorCap \<Rightarrow> cap_color colorCap
               | None \<Rightarrow> None))"

definition fine_channel_list :: "'f CoarseChannel \<Rightarrow> FineChannel list" where
  "fine_channel_list ch =
     map (\<lambda>alias. \<lparr>fine_key = alias, fine_coarseChannel = key ch\<rparr>) (fineChannelAliases ch)"

definition inverted :: "Capability list \<Rightarrow> bool" where
  "inverted caps \<longleftrightarrow>
     filter (\<lambda>cap. \<not> cap_isStep cap) caps \<noteq> []
     \<and> list_all cap_isInverted (filter (\<lambda>cap. \<not> cap_isStep cap) caps)"

definition channel_isInverted :: "'f CoarseChannel \<Rightarrow> error + bool" where
  "channel_isInverted ch =
     (case capability_list ch of Inl e \<Rightarrow> Inl e | Inr caps \<Rightarrow> Inr (inverted caps))"

definition crossfades ::
  "(Capability \<Rightarrow> Capability \<Rightarrow> bool) \<Rightarrow> bool \<Rightarrow> Capability list \<Rightarrow> bool" where
  "crossfades canCrossfadeTo constant caps \<longleftrightarrow>
     (if length caps = 1 then \<not> constant \<and> classify caps \<noteq> ''NoFunction''
      else every_canCrossfadeTo canCrossfadeTo caps
           \<and> list_ex (\<lambda>cap. \<not> cap_isStep cap) caps)"

definition channel_canCrossfade ::
  "(Capability \<Rightarrow> Capability \<Rightarrow> bool) \<Rightarrow> 'f CoarseChannel \<Rightarrow> error + bool" where
  "channel_canCrossfade canCrossfadeTo ch =
     (case capability_list ch of
        Inl e \<Rightarrow> Inl e
      | Inr caps \<Rightarrow> Inr (crossfades canCrossfadeTo (isConstant ch) caps))"

definition channel_isHelpWanted :: "'f CoarseChannel \<Rightarrow> error + bool" where
  "channel_isHelpWanted ch =
     (case capability_list ch of
        Inl e \<Rightarrow> Inl e
      | Inr caps \<Rightarrow> Inr (list_ex (\<lambda>cap. cap_helpWanted cap \<noteq> None) caps))"

definition channel_switchingChannelAliases :: "'f CoarseChannel \<Rightarrow> error + string list" where
  "channel_switchingChannelAliases ch =
     (case capability_list ch of
        Inl e \<Rightarrow> Inl e
      | Inr [] \<Rightarrow> Inl TypeError
      | Inr (cap # _) \<Rightarrow> Inr (map fst (cap_switchChannels cap)))"

definition channel_switchingChannels :: "'f CoarseChannel \<Rightarrow> error + SwitchingChannel list" where
  "channel_switchingChannels ch =
     (case channel_switchingChannelAliases ch of
        Inl e \<Rightarrow> Inl e
      | Inr as \<Rightarrow>
          Inr (map (\<lambda>alias. \<lparr>switching_key = alias, switching_triggerChannel = key ch\<rparr>) as))"

text \<open>
  The raw default and highlight values, in the declared resolution, and the table of a
  raw value scaled to every resolution from 1 to \<open>maxResolution\<close>.
\<close>

definition percent_of :: "double \<Rightarrow> nat \<Rightarrow> double" where
  "percent_of p d =
     Math_floor (times_double (divided_by_100 p) (minus_1 (Math_pow_256 d)))"

definition raw_default :: "'f CoarseChannel \<Rightarrow> error + double" where
  "raw_default ch =
     (let v = or_zero (j_defaultValue (jsonObject ch)) in
      if isInteger (Some v) then Inr (number_of v)
      else (case createFromEntityString v of
              Inl e \<Rightarrow> Inl e
            | Inr entity \<Rightarrow>
                Inr (percent_of (number entity) (declared_resolution ch))))"

definition raw_highlight :: "'f CoarseChannel \<Rightarrow> error + double" where
  "raw_highlight ch =
     (case j_highlightValue (jsonObject ch) of
        None \<Rightarrow> Inr (minus_1 (Math_pow_256 (declared_resolution ch)))
      | Some v \<Rightarrow>
          if isInteger (Some v) then Inr (number_of v)
          else (case createFromEntityString v of
                  Inl e \<Rightarrow> Inl e
                | Inr entity \<Rightarrow>
                    Inr (percent_of (number entity) (declared_resolution ch))))"

definition scaled :: "double \<Rightarrow> nat \<Rightarrow> nat \<Rightarrow> double" where
  "scaled rawValue d r =
     (case rawValue of
        Finite q \<Rightarrow>
          if d \<le> r then round_double (q * 256 ^ (r - d))
          else round_double (of_int \<lfloor>q / 256 ^ (d - r)\<rfloor>)
      | _ \<Rightarrow> rawValue)"

definition value_table :: "double \<Rightarrow> 'f CoarseChannel \<Rightarrow> (nat \<times> double) list" where
  "value_table rawValue ch =
     map (\<lambda>i. (i, scaled rawValue (declared_resolution ch) i)) [1..<Suc (maxResolution ch)]"

definition default_table :: "'f CoarseChannel \<Rightarrow> error + (nat \<times> double) list" where
  "default_table ch =
     (case raw_default ch of Inl e \<Rightarrow> Inl e | Inr rawValue \<Rightarrow> Inr (value_table rawValue ch))"

definition highlight_table :: "'f CoarseChannel \<Rightarrow> error + (nat \<times> double) list" where
  "highlight_table ch =
     (case raw_highlight ch of Inl e \<Rightarrow> Inl e | Inr rawValue \<Rightarrow> Inr (value_table rawValue ch))"

text \<open>
  A cache slot agrees with the value of its property when it is empty or holds that
  value; the cache agrees with the record when every slot does. (The getter of
  \<open>switchToChannelKeys\<close> reads \<open>SwitchingChannel\<close>, which is not among the sources; its
  slot is part of the cache but no getter here fills it.)
\<close>

definition agrees :: "'a option \<Rightarrow> error + 'a \<Rightarrow> bool" where
  "agrees slot v \<longleftrightarrow> (case slot of None \<Rightarrow> True | Some x \<Rightarrow> v = Inr x)"

definition cache_ok ::
  "(Capability \<Rightarrow> Capability \<Rightarrow> bool) \<Rightarrow> 'f CoarseChannel \<Rightarrow> bool" where
  "cache_ok canCrossfadeTo ch \<longleftrightarrow>
     agrees (c_dmxValueResolution (cache ch)) (Inr (declared_resolution ch))
     \<and> agrees (c_capabilities (cache ch)) (capability_list ch)
     \<and> agrees (c_type (cache ch)) (channel_type ch)
     \<and> agrees (c_color (cache ch)) (channel_color ch)
     \<and> agrees (c_fineChannels (cache ch)) (Inr (fine_channel_list ch))
     \<and> agrees (c_isInverted (cache ch)) (channel_isInverted ch)
     \<and> agrees (c_canCrossfade (cache ch)) (channel_canCrossfade canCrossfadeTo ch)
     \<and> agrees (c_isHelpWanted (cache ch)) (channel_isHelpWanted ch)
     \<and> agrees (c_switchingChannelAliases (cache ch)) (channel_switchingChannelAliases ch)
     \<and> agrees (c_switchingChannels (cache ch)) (channel_switchingChannels ch)
     \<and> agrees (c_defaultValuePerResolution (cache ch)) (default_table ch)
     \<and> agrees (c_highlightValuePerResolution (cache ch)) (highlight_table ch)"

text \<open>One call leads from \<open>ch\<close> to \<open>ch'\<close>: only the cache changes, and it stays right.\<close>

definition steps_to ::
  "(Capability \<Rightarrow> Capability \<Rightarrow> bool) \<Rightarrow> 'f CoarseChannel \<Rightarrow> 'f CoarseChannel \<Rightarrow> bool" where
  "steps_to canCrossfadeTo ch ch' \<longleftrightarrow>
     cache_ok canCrossfadeTo ch' \<and> key ch' = key ch \<and> jsonObject ch' = jsonObject ch
     \<and> fixture ch' = fixture ch"

text \<open>
  The value a resolution-parameterised getter returns from a table of values: a
  \<open>RangeError\<close> for an improper resolution, the error of the table if it could not be
  computed, and else the entry of the table at the resolution.
\<close>

definition value_at :: "rat \<Rightarrow> 'f CoarseChannel \<Rightarrow> error + (nat \<times> double) list \<Rightarrow> error + double option" where
  "value_at r ch table =
     (if r > of_nat (maxResolution ch) \<or> r < 1 \<or> frac r \<noteq> 0 then Inl RangeError
      else (case table of
              Inl e \<Rightarrow> Inl e
            | Inr t \<Rightarrow> Inr (map_of t (nat \<lfloor>r\<rfloor>))))"

text \<open>
  A \<open>defaultValue\<close> or \<open>highlightValue\<close> is well formed when it is absent, an integer,
  or a string that the Entity parser accepts.
\<close>

definition well_formed_value :: "json_value option \<Rightarrow> bool" where
  "well_formed_value v =
     (case v of
        None \<Rightarrow> True
      | Some (JNumber q) \<Rightarrow> frac q = 0
      | Some (JString s) \<Rightarrow>
          (case createFromEntityString (JString s) of Inl e \<Rightarrow> False | Inr entity \<Rightarrow> True))"

definition well_formed :: "'f CoarseChannel \<Rightarrow> bool" where
  "well_formed ch \<longleftrightarrow>
     well_formed_value (j_defaultValue (jsonObject ch))
     \<and> well_formed_value (j_highlightValue (jsonObject ch))"

text \<open>
  The states an object can be in: the constructor makes one, and the setter and every
  memoising getter lead from one to the next, whether the getter returns or throws.
\<close>

inductive reachable ::
  "(Capability \<Rightarrow> Capability \<Rightarrow> bool) \<Rightarrow> 'f CoarseChannel \<Rightarrow> bool"
  for canCrossfadeTo :: "Capability \<Rightarrow> Capability \<Rightarrow> bool" where
  constructed: "reachable canCrossfadeTo (new_CoarseChannel k j f)"
| assigned: "reachable canCrossfadeTo ch \<Longrightarrow> reachable canCrossfadeTo (set_jsonObject j ch)"
| read_dmxValueResolution:
    "reachable canCrossfadeTo ch \<Longrightarrow> reachable canCrossfadeTo (snd (dmxValueResolution ch))"
| read_capabilities:
    "reachable canCrossfadeTo ch \<Longrightarrow> reachable canCrossfadeTo (snd (capabilities ch))"
| read_type:
    "reachable canCrossfadeTo ch \<Longrightarrow> reachable canCrossfadeTo (snd (type ch))"
| read_color:
    "reachable canCrossfadeTo ch \<Longrightarrow> reachable canCrossfadeTo (snd (color ch))"
| read_fineChannels:
    "reachable canCrossfadeTo ch \<Longrightarrow> reachable canCrossfadeTo (snd (fineChannels ch))"
| read_isInverted:
    "reachable canCrossfadeTo ch \<Longrightarrow> reachable canCrossfadeTo (snd (isInverted ch))"
| read_canCrossfade:
    "reachable canCrossfadeTo ch
       \<Longrightarrow> reachable canCrossfadeTo (snd (canCrossfade canCrossfadeTo ch))"
| read_isHelpWanted:
    "reachable canCrossfadeTo ch \<Longrightarrow> reachable canCrossfadeTo (snd (isHelpWanted ch))"
| read_switchingChannelAliases:
    "reachable canCrossfadeTo ch
       \<Longrightarrow> reachable canCrossfadeTo (snd (switchingChannelAliases ch))"
| read_switchingChannels:
    "reachable canCrossfadeTo ch \<Longrightarrow> reachable canCrossfadeTo (snd (switchingChannels ch))"
| read_defaultValue:
    "reachable canCrossfadeTo ch
       \<Longrightarrow> reachable canCrossfadeTo (snd (getDefaultValueWithResolution r ch))"
| read_highlightValue:
    "reachable canCrossfadeTo ch
       \<Longrightarrow> reachable canCrossfadeTo (snd (getHighlightValueWithResolution r ch))"

section \<open>Example channels\<close>

definition example_capability :: "string \<Rightarrow> capability_json" where
  "example_capability ty =
     \<lparr>j_dmxRange = None, j_type = ty, j_color = None, j_wheels = [], j_shutterEffect = None,
      j_isStep = False, j_isInverted = False, j_helpWanted = None, j_switchChannels = []\<rparr>"

definition example_json :: channel_json where
  "example_json =
     \<lparr>j_name = None, j_fineChannelAliases = None, j_dmxValueResolution = None,
      j_defaultValue = None, j_highlightValue = None, j_constant = None, j_precedence = None,
      j_capability = None, j_capabilities = None\<rparr>"

definition example_Capability :: "string \<Rightarrow> nat \<Rightarrow> capability_json \<Rightarrow> Capability" where
  "example_Capability k r cap = \<lparr>cap_jsonObject = cap, cap_resolution = r, cap_channel = k\<rparr>"

text \<open>An example of \<open>canCrossfadeTo\<close>: the two capabilities have the same type.\<close>

definition same_type :: "Capability \<Rightarrow> Capability \<Rightarrow> bool" where
  "same_type cap next \<longleftrightarrow> cap_type cap = cap_type next"

definition pan_channel :: "unit CoarseChannel" where
  "pan_channel =
     new_CoarseChannel ''Pan''
       (example_json\<lparr>j_capabilities :=
          Some [example_capability ''NoFunction'', example_capability ''PanContinuous'',
                example_capability ''Speed'']\<rparr>) ()"

definition laser_channel :: "unit CoarseChannel" where
  "laser_channel =
     new_CoarseChannel ''Laser''
       (example_json\<lparr>j_capabilities := Some [example_capability ''Laser'']\<rparr>) ()"

definition percent_channel :: "unit CoarseChannel" where
  "percent_channel =
     new_CoarseChannel ''Dimmer''
       (example_json\<lparr>j_fineChannelAliases := Some [''Dimmer fine'', ''Dimmer fine^2''],
                      j_dmxValueResolution := Some Res_16bit,
                      j_defaultValue := Some (JString ''50%''),
                      j_highlightValue := Some (JNumber 65535),
                      j_capability := Some (example_capability ''Intensity'')\<rparr>) ()"

definition gobo_channel :: "unit CoarseChannel" where
  "gobo_channel =
     new_CoarseChannel ''Gobo Wheel''
       (example_json\<lparr>j_capabilities :=
          Some [(example_capability ''WheelSlot'')
                  \<lparr>j_wheels := [Some \<lparr>wheel_type = ''Gobo''\<rparr>], j_isStep := True\<rparr>]\<rparr>) ()"

definition no_function_channel :: "unit CoarseChannel" where
  "no_function_channel =
     new_CoarseChannel ''Reserved''
       (example_json\<lparr>j_capability := Some (example_capability ''NoFunction'')\<rparr>) ()"

definition strobe_channel :: "unit CoarseChannel" where
  "strobe_channel =
     new_CoarseChannel ''Shutter''
       (example_json\<lparr>j_capabilities :=
          Some [(example_capability ''ShutterStrobe'')
                  \<lparr>j_dmxRange := Some (Finite 0, Finite 9), j_shutterEffect := Some ''Closed'', j_isStep := True\<rparr>,
                (example_capability ''ShutterStrobe'')
                  \<lparr>j_dmxRange := Some (Finite 10, Finite 249), j_shutterEffect := Some ''Strobe'',
                    j_isInverted := True\<rparr>,
                (example_capability ''ShutterStrobe'')
                  \<lparr>j_dmxRange := Some (Finite 250, Finite 255), j_shutterEffect := Some ''Open'',
                    j_isStep := True, j_isInverted := True\<rparr>]\<rparr>) ()"

definition fine_8bit_channel :: "unit CoarseChannel" where
  "fine_8bit_channel =
     new_CoarseChannel ''Dimmer''
       (example_json\<lparr>j_fineChannelAliases := Some [''Dimmer fine''],
                      j_dmxValueResolution := Some Res_8bit,
                      j_capability := Some (example_capability ''Intensity'')\<rparr>) ()"

definition seven_byte_channel :: "unit CoarseChannel" where
  "seven_byte_channel =
     new_CoarseChannel ''Pan''
       (example_json\<lparr>j_fineChannelAliases :=
                        Some [''Pan fine'', ''Pan fine^2'', ''Pan fine^3'', ''Pan fine^4'',
                              ''Pan fine^5'', ''Pan fine^6''],
                      j_capability := Some (example_capability ''Pan'')\<rparr>) ()"


definition fine_channel :: "unit CoarseChannel" where
  "fine_channel =
     new_CoarseChannel ''Dimmer''
       (example_json\<lparr>j_fineChannelAliases := Some [''Dimmer fine''],
                      j_capability := Some (example_capability ''Intensity'')\<rparr>) ()"

text \<open>
  The capability that \<open>fine_8bit_channel\<close> builds from its \<open>capability\<close> field: its DMX
  range is that of the declared 8 bit resolution.
\<close>

definition intensity_8bit_capability :: Capability where
  "intensity_8bit_capability =
     \<lparr>cap_jsonObject =
        \<lparr>j_dmxRange = Some (Finite 0, Finite 255), j_type = ''Intensity'', j_color = None, j_wheels = [],
         j_shutterEffect = None, j_isStep = False, j_isInverted = False, j_helpWanted = None,
         j_switchChannels = []\<rparr>,
      cap_resolution = 1, cap_channel = ''Dimmer''\<rparr>"

section \<open>The getters return the values of the properties\<close>

declare scale_loop.simps [simp del]

lemma maxResolution_cache [simp]: "maxResolution (ch\<lparr>cache := c\<rparr>) = maxResolution ch"
  by (simp add: maxResolution_def fineChannelAliases_def)

lemma isConstant_cache [simp]: "isConstant (ch\<lparr>cache := c\<rparr>) = isConstant ch"
  by (simp add: isConstant_def)

lemma declared_resolution_cache [simp]:
  "declared_resolution (ch\<lparr>cache := c\<rparr>) = declared_resolution ch"
  by (simp add: declared_resolution_def cong: option.case_cong)

lemma capability_list_cache [simp]: "capability_list (ch\<lparr>cache := c\<rparr>) = capability_list ch"
  by (simp add: capability_list_def cong: option.case_cong)

lemma channel_type_cache [simp]: "channel_type (ch\<lparr>cache := c\<rparr>) = channel_type ch"
  by (simp add: channel_type_def)

lemma channel_color_cache [simp]: "channel_color (ch\<lparr>cache := c\<rparr>) = channel_color ch"
  by (simp add: channel_color_def)

lemma fine_channel_list_cache [simp]:
  "fine_channel_list (ch\<lparr>cache := c\<rparr>) = fine_channel_list ch"
  by (simp add: fine_channel_list_def fineChannelAliases_def)

lemma channel_isInverted_cache [simp]:
  "channel_isInverted (ch\<lparr>cache := c\<rparr>) = channel_isInverted ch"
  by (simp add: channel_isInverted_def)

lemma channel_canCrossfade_cache [simp]:
  "channel_canCrossfade X (ch\<lparr>cache := c\<rparr>) = channel_canCrossfade X ch"
  by (simp add: channel_canCrossfade_def cong: sum.case_cong)

lemma channel_isHelpWanted_cache [simp]:
  "channel_isHelpWanted (ch\<lparr>cache := c\<rparr>) = channel_isHelpWanted ch"
  by (simp add: channel_isHelpWanted_def)

lemma channel_switchingChannelAliases_cache [simp]:
  "channel_switchingChannelAliases (ch\<lparr>cache := c\<rparr>) = channel_switchingChannelAliases ch"
  by (simp add: channel_switchingChannelAliases_def)

lemma channel_switchingChannels_cache [simp]:
  "channel_switchingChannels (ch\<lparr>cache := c\<rparr>) = channel_switchingChannels ch"
  by (simp add: channel_switchingChannels_def cong: sum.case_cong)

lemma raw_default_cache [simp]: "raw_default (ch\<lparr>cache := c\<rparr>) = raw_default ch"
  by (simp add: raw_default_def Let_def cong: sum.case_cong if_cong)

lemma raw_highlight_cache [simp]: "raw_highlight (ch\<lparr>cache := c\<rparr>) = raw_highlight ch"
  by (simp add: raw_highlight_def cong: sum.case_cong option.case_cong if_cong)

lemma value_table_cache [simp]: "value_table v (ch\<lparr>cache := c\<rparr>) = value_table v ch"
  by (simp add: value_table_def)

lemma default_table_cache [simp]: "default_table (ch\<lparr>cache := c\<rparr>) = default_table ch"
  by (simp add: default_table_def cong: sum.case_cong)

lemma highlight_table_cache [simp]: "highlight_table (ch\<lparr>cache := c\<rparr>) = highlight_table ch"
  by (simp add: highlight_table_def cong: sum.case_cong)

lemma steps_to_refl: "cache_ok X ch \<Longrightarrow> steps_to X ch ch"
  by (simp add: steps_to_def)

lemma steps_to_trans: "steps_to X ch ch1 \<Longrightarrow> steps_to X ch1 ch2 \<Longrightarrow> steps_to X ch ch2"
  by (simp add: steps_to_def)

lemma steps_to_cache_ok: "steps_to X ch ch' \<Longrightarrow> cache_ok X ch'"
  by (simp add: steps_to_def)

lemma agrees_None [simp]: "agrees None v"
  by (simp add: agrees_def)

lemma agrees_Some [simp]: "agrees (Some x) v \<longleftrightarrow> v = Inr x"
  by (simp add: agrees_def)

lemma put_dmx: "cache_ok X ch \<Longrightarrow> r = declared_resolution ch \<Longrightarrow>
   cache_ok X (ch\<lparr>cache := (cache ch)\<lparr>c_dmxValueResolution := Some r\<rparr>\<rparr>)"
  by (simp add: cache_ok_def)

lemma dmxValueResolution_ok:
  assumes "cache_ok X ch"
  shows "fst (dmxValueResolution ch) = declared_resolution ch"
    and "steps_to X ch (snd (dmxValueResolution ch))"
proof -
  show "fst (dmxValueResolution ch) = declared_resolution ch"
  proof (cases "c_dmxValueResolution (cache ch)")
    case None
    then show ?thesis by (simp add: dmxValueResolution_def declared_resolution_def Let_def)
  next
    case (Some r)
    with assms show ?thesis by (simp add: dmxValueResolution_def cache_ok_def)
  qed
  show "steps_to X ch (snd (dmxValueResolution ch))"
  proof (cases "c_dmxValueResolution (cache ch)")
    case None
    then show ?thesis using put_dmx[OF assms refl]
      by (simp add: dmxValueResolution_def declared_resolution_def steps_to_def Let_def)
  next
    case (Some r)
    with assms show ?thesis by (simp add: dmxValueResolution_def steps_to_def)
  qed
qed

lemma steps_to_eq:
  fixes ch ch' :: "'f CoarseChannel"
  assumes "steps_to X ch ch'"
  shows "ch' = ch\<lparr>cache := cache ch'\<rparr>"
  using assms by (cases ch, cases ch') (simp add: steps_to_def)

lemma steps_to_pure:
  fixes ch ch' :: "'f CoarseChannel"
  assumes "steps_to X ch ch'"
  shows "declared_resolution ch' = declared_resolution ch"
    and "capability_list ch' = capability_list ch"
    and "channel_type ch' = channel_type ch"
    and "maxResolution ch' = maxResolution ch"
    and "isConstant ch' = isConstant ch"
    and "raw_default ch' = raw_default ch"
    and "raw_highlight ch' = raw_highlight ch"
    and "value_table v ch' = value_table v ch"
    and "default_table ch' = default_table ch"
    and "highlight_table ch' = highlight_table ch"
    and "channel_switchingChannelAliases ch' = channel_switchingChannelAliases ch"
  by (subst steps_to_eq[OF assms], simp)+

lemma put_capabilities:
  "cache_ok X ch \<Longrightarrow> capability_list ch = Inr caps \<Longrightarrow>
   steps_to X ch (ch\<lparr>cache := (cache ch)\<lparr>c_capabilities := Some caps\<rparr>\<rparr>)"
  by (simp add: cache_ok_def steps_to_def)

lemma new_Capabilities_ok:
  assumes "cache_ok X ch"
  shows "fst (new_Capabilities js ch)
           = map (\<lambda>cap. \<lparr>cap_jsonObject = cap, cap_resolution = declared_resolution ch,
                           cap_channel = key ch\<rparr>) js
         \<and> steps_to X ch (snd (new_Capabilities js ch))"
  using assms
proof (induction js arbitrary: ch)
  case Nil
  then show ?case by (simp add: steps_to_refl)
next
  case (Cons cap js)
  let ?ch1 = "snd (dmxValueResolution ch)"
  have s1: "steps_to X ch ?ch1" and r: "fst (dmxValueResolution ch) = declared_resolution ch"
    using dmxValueResolution_ok[OF Cons.prems] by simp_all
  have ok1: "cache_ok X ?ch1" using s1 by (rule steps_to_cache_ok)
  have k1: "key ?ch1 = key ch" using s1 by (simp add: steps_to_def)
  note ih = Cons.IH[OF ok1]
  have s2: "steps_to X ch (snd (new_Capabilities js ?ch1))"
    using s1 ih by (blast intro: steps_to_trans)
  show ?case
    using ih r k1 s2 steps_to_pure(1)[OF s1] by (simp add: case_prod_beta)
qed

lemma capabilities_ok:
  assumes "cache_ok X ch"
  shows "fst (capabilities ch) = capability_list ch"
    and "steps_to X ch (snd (capabilities ch))"
proof -
  have "fst (capabilities ch) = capability_list ch \<and> steps_to X ch (snd (capabilities ch))"
  proof (cases "c_capabilities (cache ch)")
    case (Some caps)
    with assms show ?thesis by (simp add: capabilities_def cache_ok_def steps_to_def)
  next
    case None
    show ?thesis
    proof (cases "j_capability (jsonObject ch)")
      case (Some cap)
      let ?ch1 = "snd (dmxValueResolution ch)"
      let ?ch2 = "snd (dmxValueResolution ?ch1)"
      have s1: "steps_to X ch ?ch1" and r1: "fst (dmxValueResolution ch) = declared_resolution ch"
        using dmxValueResolution_ok[OF assms] by simp_all
      have s2: "steps_to X ?ch1 ?ch2"
        and r2: "fst (dmxValueResolution ?ch1) = declared_resolution ?ch1"
        using dmxValueResolution_ok[OF steps_to_cache_ok[OF s1]] by simp_all
      have s12: "steps_to X ch ?ch2" using s1 s2 by (rule steps_to_trans)
      have k: "key ?ch2 = key ch" using s12 by (simp add: steps_to_def)
      let ?caps = "[\<lparr>cap_jsonObject =
                       assign_dmxRange
                         (Finite 0, minus_1 (Math_pow_256 (declared_resolution ch))) cap,
                cap_resolution = declared_resolution ch, cap_channel = key ch\<rparr>]"
      have cl: "capability_list ch = Inr ?caps" using Some by (simp add: capability_list_def)
      have cl2: "capability_list ?ch2 = Inr ?caps" using cl steps_to_pure(2)[OF s12] by simp
      have "steps_to X ?ch2 (?ch2\<lparr>cache := (cache ?ch2)\<lparr>c_capabilities := Some ?caps\<rparr>\<rparr>)"
        using put_capabilities[OF steps_to_cache_ok[OF s12] cl2] .
      then have "steps_to X ch (?ch2\<lparr>cache := (cache ?ch2)\<lparr>c_capabilities := Some ?caps\<rparr>\<rparr>)"
        using s12 by (blast intro: steps_to_trans)
      then show ?thesis
        using None Some r1 r2 k cl steps_to_pure(1)[OF s1]
        by (simp add: capabilities_def case_prod_beta Let_def)
    next
      case jc: None
      show ?thesis
      proof (cases "j_capabilities (jsonObject ch)")
        case None
        then show ?thesis using jc \<open>c_capabilities (cache ch) = None\<close> assms
          by (simp add: capabilities_def capability_list_def steps_to_refl)
      next
        case (Some js)
        let ?ch1 = "snd (new_Capabilities js ch)"
        let ?caps = "map (\<lambda>cap. \<lparr>cap_jsonObject = cap, cap_resolution = declared_resolution ch,
                           cap_channel = key ch\<rparr>) js"
        have r: "fst (new_Capabilities js ch) = ?caps" and s1: "steps_to X ch ?ch1"
          using new_Capabilities_ok[OF assms, of js] by simp_all
        have cl: "capability_list ch = Inr ?caps" using Some jc by (simp add: capability_list_def)
        have cl1: "capability_list ?ch1 = Inr ?caps" using cl steps_to_pure(2)[OF s1] by simp
        have "steps_to X ?ch1 (?ch1\<lparr>cache := (cache ?ch1)\<lparr>c_capabilities := Some ?caps\<rparr>\<rparr>)"
          using put_capabilities[OF steps_to_cache_ok[OF s1] cl1] .
        then have "steps_to X ch (?ch1\<lparr>cache := (cache ?ch1)\<lparr>c_capabilities := Some ?caps\<rparr>\<rparr>)"
          using s1 by (blast intro: steps_to_trans)
        then show ?thesis
          using \<open>c_capabilities (cache ch) = None\<close> jc Some r cl
          by (simp add: capabilities_def case_prod_beta)
      qed
    qed
  qed
  then show "fst (capabilities ch) = capability_list ch"
    and "steps_to X ch (snd (capabilities ch))" by simp_all
qed

lemma find_type_ok:
  assumes "cache_ok X ch"
  shows "fst (find_type tbl ch)
           = (case capability_list ch of
                Inl e \<Rightarrow> if tbl = [] then Inr None else Inl e
              | Inr caps \<Rightarrow>
                  Inr (map_option fst (find (\<lambda>entry. entry_matches caps (snd entry)) tbl)))
         \<and> steps_to X ch (snd (find_type tbl ch))"
  using assms
proof (induction tbl arbitrary: ch)
  case Nil
  then show ?case by (simp add: steps_to_refl split: sum.splits)
next
  case (Cons entry tbl)
  obtain ty cs where entry: "entry = (ty, cs)" by (cases entry)
  let ?ch1 = "snd (capabilities ch)"
  have r1: "fst (capabilities ch) = capability_list ch" and s1: "steps_to X ch ?ch1"
    using capabilities_ok[OF Cons.prems] by simp_all
  have ok1: "cache_ok X ?ch1" using s1 by (rule steps_to_cache_ok)
  show ?case
  proof (cases "capability_list ch")
    case (Inl e)
    then show ?thesis using r1 s1 entry by (simp add: case_prod_beta)
  next
    case (Inr caps)
    have cl1: "capability_list ?ch1 = Inr caps" using Inr steps_to_pure(2)[OF s1] by simp
    show ?thesis
    proof (cases "predicate cs")
      case None
      show ?thesis
        using Cons.IH[OF ok1] None Inr r1 s1 entry cl1
        by (auto simp: case_prod_beta entry_matches_def list_ex_iff intro: steps_to_trans)
    next
      case (Some p)
      let ?ch2 = "snd (capabilities ?ch1)"
      have r2: "fst (capabilities ?ch1) = Inr caps" and s2: "steps_to X ?ch1 ?ch2"
        using capabilities_ok[OF ok1] cl1 by simp_all
      have s12: "steps_to X ch ?ch2" using s1 s2 by (rule steps_to_trans)
      have cl2: "capability_list ?ch2 = Inr caps" using Inr steps_to_pure(2)[OF s12] by simp
      show ?thesis
        using Cons.IH[OF steps_to_cache_ok[OF s12]] Some Inr r1 r2 s12 entry cl2
        by (auto simp: case_prod_beta entry_matches_def list_ex_iff intro: steps_to_trans)
    qed
  qed
qed

lemma type_names_nonempty: "entry \<in> set channelTypeConstraints \<Longrightarrow> fst entry \<noteq> []"
  by (auto simp: channelTypeConstraints_def)

lemma put_type:
  "cache_ok X ch \<Longrightarrow> channel_type ch = Inr t \<Longrightarrow>
   steps_to X ch (ch\<lparr>cache := (cache ch)\<lparr>c_type := Some t\<rparr>\<rparr>)"
  by (simp add: cache_ok_def steps_to_def)

lemma type_ok:
  assumes "cache_ok X ch"
  shows "fst (type ch) = channel_type ch"
    and "steps_to X ch (snd (type ch))"
proof -
  have "fst (type ch) = channel_type ch \<and> steps_to X ch (snd (type ch))"
  proof (cases "c_type (cache ch)")
    case (Some t)
    with assms show ?thesis by (simp add: type_def cache_ok_def steps_to_def)
  next
    case None
    let ?ch1 = "snd (find_type channelTypeConstraints ch)"
    note ft = find_type_ok[OF assms, of channelTypeConstraints]
    have s1: "steps_to X ch ?ch1" using ft by simp
    have ne: "channelTypeConstraints \<noteq> []" by (simp add: channelTypeConstraints_def)
    show ?thesis
    proof (cases "capability_list ch")
      case (Inl e)
      then show ?thesis using None ft ne
        by (simp add: type_def channel_type_def case_prod_beta)
    next
      case (Inr caps)
      let ?found = "find (\<lambda>entry. entry_matches caps (snd entry)) channelTypeConstraints"
      have r: "fst (find_type channelTypeConstraints ch) = Inr (map_option fst ?found)"
        using ft Inr by simp
      have t: "(case map_option fst ?found of
                  Some ty \<Rightarrow> if ty = [] then ''Unknown'' else ty
                | None \<Rightarrow> ''Unknown'') = classify caps"
      proof (cases ?found)
        case None
        then show ?thesis by (simp add: classify_def)
      next
        case (Some entry)
        then have "entry \<in> set channelTypeConstraints"
          by (auto simp: find_Some_iff)
        then have "fst entry \<noteq> []" by (rule type_names_nonempty)
        then show ?thesis using Some by (simp add: classify_def)
      qed
      have ct: "channel_type ?ch1 = Inr (classify caps)"
        using Inr steps_to_pure(3)[OF s1] by (simp add: channel_type_def)
      have "steps_to X ?ch1 (?ch1\<lparr>cache := (cache ?ch1)\<lparr>c_type := Some (classify caps)\<rparr>\<rparr>)"
        using put_type[OF steps_to_cache_ok[OF s1] ct] .
      then have "steps_to X ch (?ch1\<lparr>cache := (cache ?ch1)\<lparr>c_type := Some (classify caps)\<rparr>\<rparr>)"
        using s1 by (blast intro: steps_to_trans)
      then show ?thesis using None r t Inr
        by (simp add: type_def channel_type_def case_prod_beta Let_def)
    qed
  qed
  then show "fst (type ch) = channel_type ch" and "steps_to X ch (snd (type ch))" by simp_all
qed

lemma put_color:
  "cache_ok X ch \<Longrightarrow> channel_color ch = Inr c \<Longrightarrow>
   steps_to X ch (ch\<lparr>cache := (cache ch)\<lparr>c_color := Some c\<rparr>\<rparr>)"
  by (simp add: cache_ok_def steps_to_def)

lemma put_isInverted:
  "cache_ok X ch \<Longrightarrow> channel_isInverted ch = Inr b \<Longrightarrow>
   steps_to X ch (ch\<lparr>cache := (cache ch)\<lparr>c_isInverted := Some b\<rparr>\<rparr>)"
  by (simp add: cache_ok_def steps_to_def)

lemma put_isHelpWanted:
  "cache_ok X ch \<Longrightarrow> channel_isHelpWanted ch = Inr b \<Longrightarrow>
   steps_to X ch (ch\<lparr>cache := (cache ch)\<lparr>c_isHelpWanted := Some b\<rparr>\<rparr>)"
  by (simp add: cache_ok_def steps_to_def)

lemma put_switchingChannelAliases:
  "cache_ok X ch \<Longrightarrow> channel_switchingChannelAliases ch = Inr as \<Longrightarrow>
   steps_to X ch (ch\<lparr>cache := (cache ch)\<lparr>c_switchingChannelAliases := Some as\<rparr>\<rparr>)"
  by (simp add: cache_ok_def steps_to_def)

lemma put_switchingChannels:
  "cache_ok X ch \<Longrightarrow> channel_switchingChannels ch = Inr scs \<Longrightarrow>
   steps_to X ch (ch\<lparr>cache := (cache ch)\<lparr>c_switchingChannels := Some scs\<rparr>\<rparr>)"
  by (simp add: cache_ok_def steps_to_def)

lemma put_fineChannels:
  "cache_ok X ch \<Longrightarrow> fs = fine_channel_list ch \<Longrightarrow>
   steps_to X ch (ch\<lparr>cache := (cache ch)\<lparr>c_fineChannels := Some fs\<rparr>\<rparr>)"
  by (simp add: cache_ok_def steps_to_def)

lemma put_canCrossfade:
  "cache_ok X ch \<Longrightarrow> channel_canCrossfade X ch = Inr b \<Longrightarrow>
   steps_to X ch (set_canCrossfade b ch)"
  by (simp add: cache_ok_def steps_to_def set_canCrossfade_def)

lemma steps_to_pure2:
  fixes ch ch' :: "'f CoarseChannel"
  assumes "steps_to X ch ch'"
  shows "channel_color ch' = channel_color ch"
    and "channel_isInverted ch' = channel_isInverted ch"
    and "channel_isHelpWanted ch' = channel_isHelpWanted ch"
    and "channel_switchingChannels ch' = channel_switchingChannels ch"
    and "channel_canCrossfade X ch' = channel_canCrossfade X ch"
    and "fine_channel_list ch' = fine_channel_list ch"
  by (subst steps_to_eq[OF assms], simp)+

lemma color_ok:
  assumes "cache_ok X ch"
  shows "fst (color ch) = channel_color ch \<and> steps_to X ch (snd (color ch))"
proof (cases "c_color (cache ch)")
  case (Some c)
  with assms show ?thesis by (simp add: color_def cache_ok_def steps_to_def)
next
  case None
  let ?ch1 = "snd (capabilities ch)"
  have r1: "fst (capabilities ch) = capability_list ch" and s1: "steps_to X ch ?ch1"
    using capabilities_ok[OF assms] by simp_all
  show ?thesis
  proof (cases "capability_list ch")
    case (Inl e)
    then show ?thesis using None r1 s1 by (simp add: color_def channel_color_def case_prod_beta)
  next
    case (Inr caps)
    then obtain c where c: "channel_color ch = Inr c" by (simp add: channel_color_def)
    then have "channel_color ?ch1 = Inr c" using steps_to_pure2(1)[OF s1] by simp
    from put_color[OF steps_to_cache_ok[OF s1] this] s1
    have "steps_to X ch (?ch1\<lparr>cache := (cache ?ch1)\<lparr>c_color := Some c\<rparr>\<rparr>)"
      by (blast intro: steps_to_trans)
    then show ?thesis using None r1 Inr c
      by (simp add: color_def channel_color_def case_prod_beta Let_def)
  qed
qed

lemma isInverted_ok:
  assumes "cache_ok X ch"
  shows "fst (isInverted ch) = channel_isInverted ch \<and> steps_to X ch (snd (isInverted ch))"
proof (cases "c_isInverted (cache ch)")
  case (Some c)
  with assms show ?thesis by (simp add: isInverted_def cache_ok_def steps_to_def)
next
  case None
  let ?ch1 = "snd (capabilities ch)"
  have r1: "fst (capabilities ch) = capability_list ch" and s1: "steps_to X ch ?ch1"
    using capabilities_ok[OF assms] by simp_all
  show ?thesis
  proof (cases "capability_list ch")
    case (Inl e)
    then show ?thesis using None r1 s1
      by (simp add: isInverted_def channel_isInverted_def case_prod_beta)
  next
    case (Inr caps)
    then have c: "channel_isInverted ch = Inr (inverted caps)"
      by (simp add: channel_isInverted_def)
    then have "channel_isInverted ?ch1 = Inr (inverted caps)"
      using steps_to_pure2(2)[OF s1] by simp
    from put_isInverted[OF steps_to_cache_ok[OF s1] this] s1
    have "steps_to X ch (?ch1\<lparr>cache := (cache ?ch1)\<lparr>c_isInverted := Some (inverted caps)\<rparr>\<rparr>)"
      by (blast intro: steps_to_trans)
    moreover have "(0 < length (filter (\<lambda>cap. \<not> cap_isStep cap) caps)
        \<and> list_all cap_isInverted (filter (\<lambda>cap. \<not> cap_isStep cap) caps)) = inverted caps"
      by (simp add: inverted_def)
    ultimately show ?thesis using None r1 Inr c
      by (simp add: isInverted_def case_prod_beta Let_def)
  qed
qed

lemma isHelpWanted_ok:
  assumes "cache_ok X ch"
  shows "fst (isHelpWanted ch) = channel_isHelpWanted ch
         \<and> steps_to X ch (snd (isHelpWanted ch))"
proof (cases "c_isHelpWanted (cache ch)")
  case (Some c)
  with assms show ?thesis by (simp add: isHelpWanted_def cache_ok_def steps_to_def)
next
  case None
  let ?ch1 = "snd (capabilities ch)"
  have r1: "fst (capabilities ch) = capability_list ch" and s1: "steps_to X ch ?ch1"
    using capabilities_ok[OF assms] by simp_all
  show ?thesis
  proof (cases "capability_list ch")
    case (Inl e)
    then show ?thesis using None r1 s1
      by (simp add: isHelpWanted_def channel_isHelpWanted_def case_prod_beta)
  next
    case (Inr caps)
    then obtain c where c: "channel_isHelpWanted ch = Inr c"
      by (simp add: channel_isHelpWanted_def)
    then have "channel_isHelpWanted ?ch1 = Inr c" using steps_to_pure2(3)[OF s1] by simp
    from put_isHelpWanted[OF steps_to_cache_ok[OF s1] this] s1
    have "steps_to X ch (?ch1\<lparr>cache := (cache ?ch1)\<lparr>c_isHelpWanted := Some c\<rparr>\<rparr>)"
      by (blast intro: steps_to_trans)
    then show ?thesis using None r1 Inr c
      by (simp add: isHelpWanted_def channel_isHelpWanted_def case_prod_beta Let_def)
  qed
qed

lemma switchingChannelAliases_ok:
  assumes "cache_ok X ch"
  shows "fst (switchingChannelAliases ch) = channel_switchingChannelAliases ch
         \<and> steps_to X ch (snd (switchingChannelAliases ch))"
proof (cases "c_switchingChannelAliases (cache ch)")
  case (Some c)
  with assms show ?thesis by (simp add: switchingChannelAliases_def cache_ok_def steps_to_def)
next
  case None
  let ?ch1 = "snd (capabilities ch)"
  have r1: "fst (capabilities ch) = capability_list ch" and s1: "steps_to X ch ?ch1"
    using capabilities_ok[OF assms] by simp_all
  show ?thesis
  proof (cases "channel_switchingChannelAliases ch")
    case (Inl e)
    then show ?thesis using None r1 s1
      by (simp add: switchingChannelAliases_def channel_switchingChannelAliases_def
          case_prod_beta split: sum.splits list.splits)
  next
    case (Inr as)
    then have "channel_switchingChannelAliases ?ch1 = Inr as"
      using steps_to_pure(11)[OF s1] by simp
    from put_switchingChannelAliases[OF steps_to_cache_ok[OF s1] this] s1
    have "steps_to X ch (?ch1\<lparr>cache := (cache ?ch1)\<lparr>c_switchingChannelAliases := Some as\<rparr>\<rparr>)"
      by (blast intro: steps_to_trans)
    then show ?thesis using None r1 Inr
      by (simp add: switchingChannelAliases_def channel_switchingChannelAliases_def
          case_prod_beta Let_def split: sum.splits list.splits)
  qed
qed

lemma switchingChannels_ok:
  assumes "cache_ok X ch"
  shows "fst (switchingChannels ch) = channel_switchingChannels ch
         \<and> steps_to X ch (snd (switchingChannels ch))"
proof (cases "c_switchingChannels (cache ch)")
  case (Some c)
  with assms show ?thesis by (simp add: switchingChannels_def cache_ok_def steps_to_def)
next
  case None
  let ?ch1 = "snd (switchingChannelAliases ch)"
  have r1: "fst (switchingChannelAliases ch) = channel_switchingChannelAliases ch"
    and s1: "steps_to X ch ?ch1"
    using switchingChannelAliases_ok[OF assms] by simp_all
  have k: "key ?ch1 = key ch" using s1 by (simp add: steps_to_def)
  show ?thesis
  proof (cases "channel_switchingChannelAliases ch")
    case (Inl e)
    then show ?thesis using None r1 s1
      by (simp add: switchingChannels_def channel_switchingChannels_def case_prod_beta)
  next
    case (Inr as)
    then obtain scs where c: "channel_switchingChannels ch = Inr scs"
      by (simp add: channel_switchingChannels_def)
    then have "channel_switchingChannels ?ch1 = Inr scs" using steps_to_pure2(4)[OF s1] by simp
    from put_switchingChannels[OF steps_to_cache_ok[OF s1] this] s1
    have "steps_to X ch (?ch1\<lparr>cache := (cache ?ch1)\<lparr>c_switchingChannels := Some scs\<rparr>\<rparr>)"
      by (blast intro: steps_to_trans)
    then show ?thesis using None r1 Inr c k
      by (simp add: switchingChannels_def channel_switchingChannels_def case_prod_beta Let_def)
  qed
qed

lemma fineChannels_ok:
  assumes "cache_ok X ch"
  shows "fst (fineChannels ch) = fine_channel_list ch \<and> steps_to X ch (snd (fineChannels ch))"
proof (cases "c_fineChannels (cache ch)")
  case (Some c)
  with assms show ?thesis by (simp add: fineChannels_def cache_ok_def steps_to_def)
next
  case None
  then show ?thesis using put_fineChannels[OF assms refl]
    by (simp add: fineChannels_def fine_channel_list_def Let_def)
qed

lemma canCrossfade_ok:
  assumes "cache_ok X ch"
  shows "fst (canCrossfade X ch) = channel_canCrossfade X ch
         \<and> steps_to X ch (snd (canCrossfade X ch))"
proof (cases "c_canCrossfade (cache ch)")
  case (Some c)
  with assms show ?thesis by (simp add: canCrossfade_def cache_ok_def steps_to_def)
next
  case None
  let ?ch1 = "snd (capabilities ch)"
  have r1: "fst (capabilities ch) = capability_list ch" and s1: "steps_to X ch ?ch1"
    using capabilities_ok[OF assms] by simp_all
  have ok1: "cache_ok X ?ch1" using s1 by (rule steps_to_cache_ok)
  show ?thesis
  proof (cases "capability_list ch")
    case (Inl e)
    then show ?thesis using None r1 s1
      by (simp add: canCrossfade_def channel_canCrossfade_def case_prod_beta)
  next
    case (Inr caps)
    have cc: "channel_canCrossfade X ch = Inr (crossfades X (isConstant ch) caps)"
      using Inr by (simp add: channel_canCrossfade_def)
    have put: "steps_to X ch (set_canCrossfade (crossfades X (isConstant ch) caps) ch')"
      if "steps_to X ch ch'" for ch'
    proof -
      have "channel_canCrossfade X ch' = Inr (crossfades X (isConstant ch) caps)"
        using cc steps_to_pure2(5)[OF that] by simp
      from put_canCrossfade[OF steps_to_cache_ok[OF that] this] that
      show ?thesis by (blast intro: steps_to_trans)
    qed
    show ?thesis
    proof (cases "length caps = 1")
      case True
      have const1: "isConstant ?ch1 = isConstant ch" using steps_to_pure(5)[OF s1] .
      show ?thesis
      proof (cases "isConstant ch")
        case c: True
        then have "crossfades X (isConstant ch) caps = False"
          using True by (simp add: crossfades_def)
        then show ?thesis using put[OF s1] None r1 Inr True c const1 cc
          by (simp add: canCrossfade_def case_prod_beta)
      next
        case c: False
        let ?ch2 = "snd (type ?ch1)"
        have r2: "fst (type ?ch1) = Inr (classify caps)" and s2: "steps_to X ?ch1 ?ch2"
          using type_ok[OF ok1] steps_to_pure(2)[OF s1] Inr
          by (simp_all add: channel_type_def)
        have s12: "steps_to X ch ?ch2" using s1 s2 by (rule steps_to_trans)
        have "crossfades X (isConstant ch) caps = (classify caps \<noteq> ''NoFunction'')"
          using True c by (simp add: crossfades_def)
        then show ?thesis using put[OF s12] None r1 r2 Inr True c const1 cc
          by (simp add: canCrossfade_def case_prod_beta)
      qed
    next
      case False
      let ?ch2 = "snd (capabilities ?ch1)"
      have r2: "fst (capabilities ?ch1) = Inr caps" and s2: "steps_to X ?ch1 ?ch2"
        using capabilities_ok[OF ok1] steps_to_pure(2)[OF s1] Inr by simp_all
      have s12: "steps_to X ch ?ch2" using s1 s2 by (rule steps_to_trans)
      let ?ch3 = "snd (capabilities ?ch2)"
      have r3: "fst (capabilities ?ch2) = Inr caps" and s3: "steps_to X ?ch2 ?ch3"
        using capabilities_ok[OF steps_to_cache_ok[OF s12]] steps_to_pure(2)[OF s12] Inr
        by simp_all
      have s13: "steps_to X ch ?ch3" using s12 s3 by (rule steps_to_trans)
      show ?thesis
      proof (cases "every_canCrossfadeTo X caps")
        case e: True
        then have "crossfades X (isConstant ch) caps = list_ex (\<lambda>cap. \<not> cap_isStep cap) caps"
          using False by (simp add: crossfades_def)
        then show ?thesis using put[OF s13] None r1 r2 r3 Inr False e cc
          by (simp add: canCrossfade_def case_prod_beta Let_def)
      next
        case e: False
        then have "crossfades X (isConstant ch) caps = False"
          using False by (simp add: crossfades_def)
        then show ?thesis using put[OF s12] None r1 r2 Inr False e cc
          by (simp add: canCrossfade_def case_prod_beta)
      qed
    qed
  qed
qed

lemma declared_resolution_pos: "1 \<le> declared_resolution ch"
  by (simp add: declared_resolution_def resolutionStringToResolution_def maxResolution_def
      RESOLUTION_8BIT_def RESOLUTION_16BIT_def RESOLUTION_24BIT_def
      split: option.splits resolution_string.splits)

lemma scaleDmxValue_scaled:
  "1 \<le> d \<Longrightarrow> 1 \<le> i \<Longrightarrow> scaleDmxValue v (int d) (int i) = Inr (scaled v d i)"
  by (cases v) (auto simp: scaleDmxValue_def scaled_def nat_diff_distrib')

lemma scale_loop_ok:
  assumes "cache_ok X ch" and "1 \<le> i"
  shows "fst (scale_loop v i table ch)
           = (None, table @ map (\<lambda>k. (k, scaled v (declared_resolution ch) k))
                                [i..<Suc (maxResolution ch)])
         \<and> steps_to X ch (snd (scale_loop v i table ch))"
  using assms
proof (induction v i table ch rule: scale_loop.induct)
  case (1 v i table ch)
  show ?case
  proof (cases "i \<le> maxResolution ch")
    case False
    then show ?thesis using "1.prems"
      by (simp add: scale_loop.simps[of v i table ch] steps_to_refl)
  next
    case True
    let ?ch1 = "snd (dmxValueResolution ch)"
    have r: "fst (dmxValueResolution ch) = declared_resolution ch"
      and s1: "steps_to X ch ?ch1"
      using dmxValueResolution_ok[OF "1.prems"(1)] by simp_all
    have sc: "scaleDmxValue v (int (fst (dmxValueResolution ch))) (int i)
                = Inr (scaled v (declared_resolution ch) i)"
      using r scaleDmxValue_scaled[OF declared_resolution_pos "1.prems"(2)] by simp
    note ih = "1.IH"[OF True sc steps_to_cache_ok[OF s1]]
    have ih': "fst (scale_loop v (Suc i) (table @ [(i, scaled v (declared_resolution ch) i)]) ?ch1)
                 = (None, (table @ [(i, scaled v (declared_resolution ch) i)])
                      @ map (\<lambda>k. (k, scaled v (declared_resolution ch) k))
                          [Suc i..<Suc (maxResolution ch)])"
      and s2: "steps_to X ?ch1
                 (snd (scale_loop v (Suc i) (table @ [(i, scaled v (declared_resolution ch) i)]) ?ch1))"
      using ih steps_to_pure(1,4)[OF s1] by simp_all
    have up: "[i..<Suc (maxResolution ch)] = i # [Suc i..<Suc (maxResolution ch)]"
      using True by (simp add: upt_conv_Cons)
    show ?thesis
      apply (subst scale_loop.simps)
      apply (subst (2) scale_loop.simps)
      using True sc ih' s2 s1 up by (auto intro: steps_to_trans)
  qed
qed

lemma put_default:
  "cache_ok X ch \<Longrightarrow> default_table ch = Inr table \<Longrightarrow>
   steps_to X ch (ch\<lparr>cache := (cache ch)\<lparr>c_defaultValuePerResolution := Some table\<rparr>\<rparr>)"
  by (simp add: cache_ok_def steps_to_def)

lemma put_highlight:
  "cache_ok X ch \<Longrightarrow> highlight_table ch = Inr table \<Longrightarrow>
   steps_to X ch (ch\<lparr>cache := (cache ch)\<lparr>c_highlightValuePerResolution := Some table\<rparr>\<rparr>)"
  by (simp add: cache_ok_def steps_to_def)

lemma scale_loop_table:
  assumes "cache_ok X ch"
  shows "fst (scale_loop v 1 [] ch) = (None, value_table v ch)"
    and "steps_to X ch (snd (scale_loop v 1 [] ch))"
  using scale_loop_ok[OF assms, of 1 v "[]"] by (simp_all add: value_table_def)

lemma getDefaultValueWithResolution_ok:
  assumes "cache_ok X ch"
  shows "fst (getDefaultValueWithResolution r ch) = value_at r ch (default_table ch)
         \<and> steps_to X ch (snd (getDefaultValueWithResolution r ch))"
proof (cases "ensureProperResolution ch r")
  case (Inl e)
  then show ?thesis using assms
    by (auto simp: getDefaultValueWithResolution_def ensureProperResolution_def value_at_def
        RESOLUTION_8BIT_def steps_to_refl split: if_splits)
next
  case (Inr u)
  then have rng: "\<not> (r > of_nat (maxResolution ch) \<or> r < 1 \<or> frac r \<noteq> 0)"
    by (auto simp: ensureProperResolution_def RESOLUTION_8BIT_def split: if_splits)
  show ?thesis
  proof (cases "c_defaultValuePerResolution (cache ch)")
    case (Some table)
    then have "default_table ch = Inr table" using assms by (simp add: cache_ok_def)
    then show ?thesis using Inr Some rng assms
      by (simp add: getDefaultValueWithResolution_def value_at_def steps_to_refl)
  next
    case None
    let ?raw = "or_zero (j_defaultValue (jsonObject ch))"
    show ?thesis
    proof (cases "isInteger (Some ?raw)")
      case True
      then have rd: "raw_default ch = Inr (number_of ?raw)" by (simp add: raw_default_def)
      let ?v = "number_of ?raw"
      let ?ch2 = "snd (scale_loop ?v 1 [] ch)"
      have l: "fst (scale_loop ?v 1 [] ch) = (None, value_table ?v ch)"
        and s2: "steps_to X ch ?ch2"
        using scale_loop_table[OF assms] by simp_all
      have "default_table ?ch2 = Inr (value_table ?v ch)"
        using rd steps_to_pure(9)[OF s2] by (simp add: default_table_def)
      from put_default[OF steps_to_cache_ok[OF s2] this] s2
      have "steps_to X ch (?ch2\<lparr>cache := (cache ?ch2)
               \<lparr>c_defaultValuePerResolution := Some (value_table ?v ch)\<rparr>\<rparr>)"
        by (blast intro: steps_to_trans)
      then show ?thesis using Inr None True l rd rng
        by (simp add: getDefaultValueWithResolution_def value_at_def default_table_def
            case_prod_beta Let_def)
    next
      case False
      show ?thesis
      proof (cases "createFromEntityString ?raw")
        case (Inl e)
        then have "raw_default ch = Inl e" using False by (simp add: raw_default_def)
        then show ?thesis using Inr None False Inl rng assms
          by (simp add: getDefaultValueWithResolution_def value_at_def default_table_def
              case_prod_beta Let_def steps_to_refl)
      next
        case ent: (Inr entity)
        let ?v = "percent_of (number entity) (declared_resolution ch)"
        have rd: "raw_default ch = Inr ?v" using False ent by (simp add: raw_default_def)
        let ?ch1 = "snd (dmxValueResolution ch)"
        have r1: "fst (dmxValueResolution ch) = declared_resolution ch"
          and s1: "steps_to X ch ?ch1"
          using dmxValueResolution_ok[OF assms] by simp_all
        let ?ch2 = "snd (scale_loop ?v 1 [] ?ch1)"
        have l: "fst (scale_loop ?v 1 [] ?ch1) = (None, value_table ?v ch)"
          and s2: "steps_to X ?ch1 ?ch2"
          using scale_loop_table[OF steps_to_cache_ok[OF s1]] steps_to_pure(8)[OF s1]
          by simp_all
        have s12: "steps_to X ch ?ch2" using s1 s2 by (rule steps_to_trans)
        have "default_table ?ch2 = Inr (value_table ?v ch)"
          using rd steps_to_pure(9)[OF s12] by (simp add: default_table_def)
        from put_default[OF steps_to_cache_ok[OF s12] this] s12
        have "steps_to X ch (?ch2\<lparr>cache := (cache ?ch2)
                 \<lparr>c_defaultValuePerResolution := Some (value_table ?v ch)\<rparr>\<rparr>)"
          by (blast intro: steps_to_trans)
        then show ?thesis using Inr None False ent l r1 rd rng
          by (simp add: getDefaultValueWithResolution_def value_at_def default_table_def
              case_prod_beta Let_def percent_of_def)
      qed
    qed
  qed
qed

lemma getHighlightValueWithResolution_ok:
  assumes "cache_ok X ch"
  shows "fst (getHighlightValueWithResolution r ch) = value_at r ch (highlight_table ch)
         \<and> steps_to X ch (snd (getHighlightValueWithResolution r ch))"
proof (cases "ensureProperResolution ch r")
  case (Inl e)
  then show ?thesis using assms
    by (auto simp: getHighlightValueWithResolution_def ensureProperResolution_def value_at_def
        RESOLUTION_8BIT_def steps_to_refl split: if_splits)
next
  case (Inr u)
  then have rng: "\<not> (r > of_nat (maxResolution ch) \<or> r < 1 \<or> frac r \<noteq> 0)"
    by (auto simp: ensureProperResolution_def RESOLUTION_8BIT_def split: if_splits)
  show ?thesis
  proof (cases "c_highlightValuePerResolution (cache ch)")
    case (Some table)
    then have "highlight_table ch = Inr table" using assms by (simp add: cache_ok_def)
    then show ?thesis using Inr Some rng assms
      by (simp add: getHighlightValueWithResolution_def value_at_def steps_to_refl)
  next
    case None
    let ?raw = "j_highlightValue (jsonObject ch)"
    have fin: ?thesis
      if rd: "raw_highlight ch = Inr v"
        and s1: "steps_to X ch ch1"
        and body: "fst (getHighlightValueWithResolution r ch)
            = (case fst (scale_loop v 1 [] ch1) of
                 (err, table) \<Rightarrow>
                   (case err of Some e \<Rightarrow> Inl e
                    | None \<Rightarrow> Inr (map_of table (nat \<lfloor>r\<rfloor>))))"
          "snd (getHighlightValueWithResolution r ch)
            = (snd (scale_loop v 1 [] ch1))\<lparr>cache := (cache (snd (scale_loop v 1 [] ch1)))
                 \<lparr>c_highlightValuePerResolution := Some (snd (fst (scale_loop v 1 [] ch1)))\<rparr>\<rparr>"
      for v ch1
    proof -
      let ?ch2 = "snd (scale_loop v 1 [] ch1)"
      have l: "fst (scale_loop v 1 [] ch1) = (None, value_table v ch)"
        and s2: "steps_to X ch1 ?ch2"
        using scale_loop_table[OF steps_to_cache_ok[OF s1]] steps_to_pure(8)[OF s1]
        by simp_all
      have s12: "steps_to X ch ?ch2" using s1 s2 by (rule steps_to_trans)
      have "highlight_table ?ch2 = Inr (value_table v ch)"
        using rd steps_to_pure(10)[OF s12] by (simp add: highlight_table_def)
      from put_highlight[OF steps_to_cache_ok[OF s12] this] s12
      have "steps_to X ch (?ch2\<lparr>cache := (cache ?ch2)
               \<lparr>c_highlightValuePerResolution := Some (value_table v ch)\<rparr>\<rparr>)"
        by (blast intro: steps_to_trans)
      then show ?thesis using body l rd rng
        by (simp add: value_at_def highlight_table_def)
    qed
    show ?thesis
    proof (cases "isInteger ?raw")
      case True
      then obtain w where w: "?raw = Some w" by (auto simp: isInteger_def split: option.splits)
      then have rd: "raw_highlight ch = Inr (number_of w)"
        using True by (simp add: raw_highlight_def)
      show ?thesis
        by (rule fin[OF rd steps_to_refl[OF assms]])
           (use Inr None True w in
             \<open>simp_all add: getHighlightValueWithResolution_def case_prod_beta Let_def
                 split: option.splits\<close>)
    next
      case False
      let ?ch1 = "snd (dmxValueResolution ch)"
      have r1: "fst (dmxValueResolution ch) = declared_resolution ch"
        and s1: "steps_to X ch ?ch1"
        using dmxValueResolution_ok[OF assms] by simp_all
      show ?thesis
      proof (cases ?raw)
        case n: None
        then have rd: "raw_highlight ch = Inr (minus_1 (Math_pow_256 (declared_resolution ch)))"
          by (simp add: raw_highlight_def)
        show ?thesis
          by (rule fin[OF rd s1])
             (use Inr None False n r1 in
               \<open>simp_all add: getHighlightValueWithResolution_def case_prod_beta Let_def
                   split: option.splits\<close>)
      next
        case (Some w)
        show ?thesis
        proof (cases "createFromEntityString w")
          case (Inl e)
          then have "raw_highlight ch = Inl e" using False Some by (simp add: raw_highlight_def)
          then show ?thesis using Inr None False Inl Some rng s1
            by (simp add: getHighlightValueWithResolution_def value_at_def highlight_table_def
                case_prod_beta Let_def)
        next
          case ent: (Inr entity)
          have rd: "raw_highlight ch
                      = Inr (percent_of (number entity) (declared_resolution ch))"
            using False ent Some by (simp add: raw_highlight_def)
          show ?thesis
            by (rule fin[OF rd s1])
               (use Inr None False Some r1 ent in
                 \<open>simp_all add: getHighlightValueWithResolution_def case_prod_beta Let_def
                     percent_of_def split: option.splits\<close>)
        qed
      qed
    qed
  qed
qed

lemma round_half_even_of_int [simp]: "round_half_even (of_int m) = m"
  by (simp add: round_half_even_def)

lemma pow2_nonpos: "k \<le> 0 \<Longrightarrow> pow2 k = 1 / 2 ^ nat (- k)"
  by (auto simp: pow2_def)

lemma exponent_of_int:
  assumes "0 < n"
  shows "exponent_of (of_int n) = bitlen n - 1"
proof -
  have b: "2 ^ nat (bitlen n - 1) \<le> n" using bitlen_bounds[OF assms] by simp
  have "1 \<le> bitlen n" using assms by (simp add: bitlen_alt_def)
  then have "pow2 (bitlen n - 1) = of_int (2 ^ nat (bitlen n - 1))" by (simp add: pow2_def)
  also have "\<dots> \<le> of_int n" using b by (simp only: of_int_le_iff)
  finally have "pow2 (bitlen n - 1) \<le> of_int n" .
  moreover have "bitlen 1 = 1" by (simp add: bitlen_alt_def)
  ultimately show ?thesis by (simp add: exponent_of_def)
qed

lemma bitlen_less_53:
  assumes "0 < n" and "n < 2 ^ 53"
  shows "0 \<le> bitlen n - 1 \<and> bitlen n - 1 \<le> 52"
proof -
  have b: "2 ^ nat (bitlen n - 1) \<le> n" using bitlen_bounds[OF assms(1)] by simp
  have one: "1 \<le> bitlen n" using assms(1) by (simp add: bitlen_alt_def)
  have "(2 :: int) ^ nat (bitlen n - 1) < 2 ^ 53" using b assms(2) by linarith
  then have "nat (bitlen n - 1) < 53"
    by (rule power_less_imp_less_exp[rotated]) simp
  then show ?thesis using one by linarith
qed

lemma round_double_of_int:
  assumes "\<bar>n\<bar> < 2 ^ 53"
  shows "round_double (of_int n) = Finite (of_int n)"
proof (cases "n = 0")
  case True
  then show ?thesis by (simp add: round_double_def)
next
  case False
  let ?k = "bitlen \<bar>n\<bar> - 1"
  let ?j = "nat (52 - ?k)"
  have pos: "0 < \<bar>n\<bar>" using False by simp
  have k: "0 \<le> ?k" "?k \<le> 52" using bitlen_less_53[OF pos assms] by simp_all
  have e: "exponent_of \<bar>of_int n :: rat\<bar> = ?k"
    using exponent_of_int[OF pos] by (simp only: of_int_abs)
  have m: "max ?k (- 1022) = ?k" using k by simp
  have u: "pow2 (?k - 52) = 1 / 2 ^ ?j" using k pow2_nonpos[of "?k - 52"] by simp
  have q: "(of_int n :: rat) / (1 / 2 ^ ?j) = of_int (n * 2 ^ ?j)" by simp
  have v: "of_int (round_half_even ((of_int n :: rat) / (1 / 2 ^ ?j))) * (1 / 2 ^ ?j)
             = (of_int n :: rat)"
    unfolding q round_half_even_of_int by simp
  have "\<bar>of_int n :: rat\<bar> = of_int \<bar>n\<bar>" by simp
  also have "\<dots> < of_int (2 ^ 53)" using assms by (simp only: of_int_less_iff)
  also have "\<dots> \<le> pow2 1024" by (simp add: pow2_def)
  finally have small: "\<not> pow2 1024 \<le> \<bar>of_int n :: rat\<bar>" by simp
  have nz: "(of_int n :: rat) \<noteq> 0" using False by simp
  show ?thesis
    unfolding round_double_def Let_def e m u v using small nz by simp
qed

lemma Math_pow_256_small:
  assumes "n \<le> 6"
  shows "Math_pow_256 n = Finite (256 ^ n)"
proof -
  have "(256 :: int) ^ n \<le> 256 ^ 6" using assms by (intro power_increasing) simp_all
  then have "\<bar>(256 :: int) ^ n\<bar> < 2 ^ 53" by simp
  from round_double_of_int[OF this] show ?thesis by (simp add: Math_pow_256_def)
qed

lemma max_value_small:
  assumes "n \<le> 6"
  shows "minus_1 (Math_pow_256 n) = Finite (256 ^ n - 1)"
proof -
  have "(256 :: int) ^ n \<le> 256 ^ 6" using assms by (intro power_increasing) simp_all
  moreover have "(0 :: int) < 256 ^ n" by simp
  ultimately have "\<bar>(256 :: int) ^ n - 1\<bar> < 2 ^ 53" by simp
  from round_double_of_int[OF this] show ?thesis
    by (simp add: Math_pow_256_small[OF assms] minus_1_def)
qed

lemma max_value_7: "minus_1 (Math_pow_256 7) = Finite (256 ^ 7)"
  by code_simp

lemma cache_ok_new: "cache_ok X (new_CoarseChannel k j f)"
  by (simp add: cache_ok_def new_CoarseChannel_def empty_cache_def)

lemma cache_ok_set: "cache_ok X (set_jsonObject j ch)"
  by (simp add: cache_ok_def set_jsonObject_def empty_cache_def)

text \<open>
  In every state the object can reach, the cache agrees with the record: the
  hypothesis \<open>cache_ok\<close> of the theorems below holds of every channel a program has.
\<close>

lemma reachable_cache_ok: "reachable X ch \<Longrightarrow> cache_ok X ch"
proof (induction rule: reachable.induct)
  case (constructed k j f)
  show ?case by (rule cache_ok_new)
next
  case (assigned ch j)
  show ?case by (rule cache_ok_set)
next
  case (read_dmxValueResolution ch)
  then show ?case using dmxValueResolution_ok(2) by (blast intro: steps_to_cache_ok)
next
  case (read_capabilities ch)
  then show ?case using capabilities_ok(2) by (blast intro: steps_to_cache_ok)
next
  case (read_type ch)
  then show ?case using type_ok(2) by (blast intro: steps_to_cache_ok)
next
  case (read_color ch)
  then show ?case using color_ok by (blast intro: steps_to_cache_ok)
next
  case (read_fineChannels ch)
  then show ?case using fineChannels_ok by (blast intro: steps_to_cache_ok)
next
  case (read_isInverted ch)
  then show ?case using isInverted_ok by (blast intro: steps_to_cache_ok)
next
  case (read_canCrossfade ch)
  then show ?case using canCrossfade_ok by (blast intro: steps_to_cache_ok)
next
  case (read_isHelpWanted ch)
  then show ?case using isHelpWanted_ok by (blast intro: steps_to_cache_ok)
next
  case (read_switchingChannelAliases ch)
  then show ?case using switchingChannelAliases_ok by (blast intro: steps_to_cache_ok)
next
  case (read_switchingChannels ch)
  then show ?case using switchingChannels_ok by (blast intro: steps_to_cache_ok)
next
  case (read_defaultValue ch r)
  then show ?case using getDefaultValueWithResolution_ok by (blast intro: steps_to_cache_ok)
next
  case (read_highlightValue ch r)
  then show ?case using getHighlightValueWithResolution_ok by (blast intro: steps_to_cache_ok)
qed

lemma map_of_value_table:
  "map_of (value_table v ch) k
     = (if 1 \<le> k \<and> k \<le> maxResolution ch then Some (scaled v (declared_resolution ch) k)
        else None)"
proof -
  have "map_of (map (\<lambda>i. (i, f i)) xs) k = (if k \<in> set xs then Some (f k) else None)"
    for f :: "nat \<Rightarrow> double" and xs
    by (induction xs) auto
  then show ?thesis by (auto simp: value_table_def)
qed

lemma value_at_in_range:
  assumes "1 \<le> r" "r \<le> maxResolution ch"
  shows "value_at (of_nat r) ch (Inr (value_table v ch))
           = Inr (Some (scaled v (declared_resolution ch) r))"
  using assms by (simp add: value_at_def map_of_value_table)

lemma capabilities_value:
  assumes "cache_ok X ch" and "fst (capabilities ch) = Inr caps"
  shows "capability_list ch = Inr caps"
  using capabilities_ok(1)[OF assms(1)] assms(2) by simp

section \<open>The claims\<close>

subsection \<open>Classification\<close>

text \<open>
  C1. The \<open>type\<close> getter returns the name of the first entry of the rule table, in its
  declaration order, that matches the channel's capabilities: some capability has one
  of the entry's required types, and the entry's predicate, when it has one, holds of
  the whole capability list. When no entry matches the type is \<open>Unknown\<close>. The names
  of the table are, in order, those the claim lists.
\<close>

theorem type_is_first_match:
  assumes "cache_ok X ch" and "fst (capabilities ch) = Inr caps"
  shows "fst (type ch)
           = Inr (case find (\<lambda>entry. entry_matches caps (snd entry)) channelTypeConstraints of
                    Some entry \<Rightarrow> fst entry
                  | None \<Rightarrow> ''Unknown'')
         \<and> map fst channelTypeConstraints
             = [''Single Color'', ''Multi-Color'', ''Pan'', ''Tilt'', ''Focus'', ''Zoom'', ''Iris'',
                ''Gobo'', ''Prism'', ''Color Temperature'', ''Effect'', ''Strobe'', ''Shutter'',
                ''Fog'', ''Speed'', ''Maintenance'', ''Intensity'', ''NoFunction'']"
proof -
  have "capability_list ch = Inr caps" using assms by (rule capabilities_value)
  then have "fst (type ch) = Inr (classify caps)"
    using type_ok(1)[OF assms(1)] by (simp add: channel_type_def)
  then show ?thesis by (simp add: classify_def channelTypeConstraints_def)
qed

theorem type_is_first_match_witness:
  "cache_ok same_type pan_channel
   \<and> fst (capabilities pan_channel)
       = Inr (map (example_Capability ''Pan'' 1)
                [example_capability ''NoFunction'', example_capability ''PanContinuous'',
                 example_capability ''Speed''])
   \<and> fst (type pan_channel) = Inr ''Pan''
   \<and> cache_ok same_type laser_channel
   \<and> fst (capabilities laser_channel)
       = Inr [example_Capability ''Laser'' 1 (example_capability ''Laser'')]
   \<and> fst (type laser_channel) = Inr ''Unknown''"
proof -
  let ?caps = "map (example_Capability ''Pan'' 1)
                [example_capability ''NoFunction'', example_capability ''PanContinuous'',
                 example_capability ''Speed'']"
  let ?laser = "[example_Capability ''Laser'' 1 (example_capability ''Laser'')]"
  have ok: "cache_ok same_type pan_channel" by (simp add: pan_channel_def cache_ok_new)
  have ok': "cache_ok same_type laser_channel" by (simp add: laser_channel_def cache_ok_new)
  have caps: "fst (capabilities pan_channel) = Inr ?caps"
    by code_simp
  have caps': "fst (capabilities laser_channel) = Inr ?laser"
    by code_simp
  have "(case find (\<lambda>entry. entry_matches ?caps (snd entry)) channelTypeConstraints of
           Some entry \<Rightarrow> fst entry
         | None \<Rightarrow> ''Unknown'') = ''Pan''"
    by code_simp
  then have pan: "fst (type pan_channel) = Inr ''Pan''"
    using type_is_first_match[OF ok caps] by simp
  have "(case find (\<lambda>entry. entry_matches ?laser (snd entry)) channelTypeConstraints of
           Some entry \<Rightarrow> fst entry
         | None \<Rightarrow> ''Unknown'') = ''Unknown''"
    by code_simp
  then have laser: "fst (type laser_channel) = Inr ''Unknown''"
    using type_is_first_match[OF ok' caps'] by simp
  show ?thesis using ok ok' caps caps' pan laser by simp
qed

text \<open>
  C7. A channel whose only capability is a \<open>WheelSlot\<close> with the single wheel of type
  \<open>Gobo\<close> has the type \<open>Gobo\<close>, not \<open>Effect\<close>: the entry \<open>Effect\<close> requires \<open>WheelSlot\<close> too
  but comes after \<open>Gobo\<close> in the table, the predicate of \<open>Gobo\<close> holds, and the predicate
  of \<open>Multi-Color\<close>, the only earlier entry that requires \<open>WheelSlot\<close>, fails.
\<close>

theorem gobo_wheel_slot_is_Gobo:
  assumes "cache_ok X ch" and "fst (capabilities ch) = Inr [cap]"
    and "cap_type cap = ''WheelSlot''"
    and "cap_wheels cap = [Some \<lparr>wheel_type = ''Gobo''\<rparr>]"
  shows "fst (type ch) = Inr ''Gobo''
         \<and> fst (type ch) \<noteq> Inr ''Effect''
         \<and> gobo_predicate [cap] \<and> \<not> multi_color_predicate [cap]
         \<and> map_of channelTypeConstraints ''Effect''
             = Some \<lparr>required = [''Effect'', ''EffectParameter'', ''Frost'', ''FrostEffect'',
                                  ''SoundSensitivity'', ''WheelSlot''], predicate = None\<rparr>
         \<and> (\<exists>before after rest.
               map fst channelTypeConstraints = before @ ''Gobo'' # after @ ''Effect'' # rest)"
proof -
  have cl: "capability_list ch = Inr [cap]" using assms(1,2) by (rule capabilities_value)
  have g: "gobo_predicate [cap]" using assms(4) by (simp add: gobo_predicate_def)
  have m: "\<not> multi_color_predicate [cap]"
    using assms(3,4) by (simp add: multi_color_predicate_def)
  have "classify [cap] = ''Gobo''"
    using assms(3) g m
    by (simp add: classify_def channelTypeConstraints_def entry_matches_def plain_def)
  then have t: "fst (type ch) = Inr ''Gobo''"
    using type_ok(1)[OF assms(1)] cl by (simp add: channel_type_def)
  have e: "map_of channelTypeConstraints ''Effect''
             = Some \<lparr>required = [''Effect'', ''EffectParameter'', ''Frost'', ''FrostEffect'',
                                  ''SoundSensitivity'', ''WheelSlot''], predicate = None\<rparr>"
    by (simp add: channelTypeConstraints_def plain_def)
  have "map fst channelTypeConstraints
          = [''Single Color'', ''Multi-Color'', ''Pan'', ''Tilt'', ''Focus'', ''Zoom'', ''Iris'']
            @ ''Gobo'' # [''Prism'', ''Color Temperature''] @ ''Effect''
              # [''Strobe'', ''Shutter'', ''Fog'', ''Speed'', ''Maintenance'', ''Intensity'',
                 ''NoFunction'']"
    by (simp add: channelTypeConstraints_def)
  then have o: "\<exists>before after rest.
               map fst channelTypeConstraints = before @ ''Gobo'' # after @ ''Effect'' # rest"
    by blast
  show ?thesis using t g m e o by simp
qed

theorem gobo_wheel_slot_is_Gobo_witness:
  "cache_ok same_type gobo_channel
   \<and> fst (capabilities gobo_channel)
       = Inr [example_Capability ''Gobo Wheel'' 1
                ((example_capability ''WheelSlot'')
                   \<lparr>j_wheels := [Some \<lparr>wheel_type = ''Gobo''\<rparr>], j_isStep := True\<rparr>)]
   \<and> fst (type gobo_channel) = Inr ''Gobo''"
proof -
  let ?cap = "example_Capability ''Gobo Wheel'' 1
                ((example_capability ''WheelSlot'')
                   \<lparr>j_wheels := [Some \<lparr>wheel_type = ''Gobo''\<rparr>], j_isStep := True\<rparr>)"
  have ok: "cache_ok same_type gobo_channel" by (simp add: gobo_channel_def cache_ok_new)
  have caps: "fst (capabilities gobo_channel) = Inr [?cap]" by code_simp
  have ty: "cap_type ?cap = ''WheelSlot''"
    by (simp add: example_Capability_def example_capability_def)
  have wh: "cap_wheels ?cap = [Some \<lparr>wheel_type = ''Gobo''\<rparr>]"
    by (simp add: example_Capability_def example_capability_def)
  show ?thesis using gobo_wheel_slot_is_Gobo[OF ok caps ty wh] ok caps by simp
qed

subsection \<open>Resolutions\<close>

text \<open>
  C3, as the code has it. \<open>maxResolution\<close> is one more than the number of fine channel
  aliases, an absent \<open>fineChannelAliases\<close> field counting as the empty list.
  \<open>maxDmxBound\<close> is \<open>Math.pow(256, maxResolution) - 1\<close> in double arithmetic, which is
  \<open>256 ^ maxResolution - 1\<close> as long as \<open>maxResolution\<close> is at most 6, where that number
  is below \<open>2 ^ 53\<close>.
\<close>

theorem maxDmxBound_up_to_six_bytes:
  "fineChannelAliases ch
     = (case j_fineChannelAliases (jsonObject ch) of None \<Rightarrow> [] | Some as \<Rightarrow> as)
   \<and> maxResolution ch = 1 + length (fineChannelAliases ch)
   \<and> maxDmxBound ch = minus_1 (Math_pow_256 (maxResolution ch))
   \<and> (maxResolution ch \<le> 6 \<longrightarrow> maxDmxBound ch = Finite (256 ^ maxResolution ch - 1))"
  by (simp add: maxResolution_def maxDmxBound_def fineChannelAliases_def max_value_small)

theorem maxDmxBound_up_to_six_bytes_witness:
  "maxResolution percent_channel = 3 \<and> maxDmxBound percent_channel = Finite 16777215
   \<and> maxResolution pan_channel = 1 \<and> maxDmxBound pan_channel = Finite 255"
proof -
  have a: "fineChannelAliases percent_channel = [''Dimmer fine'', ''Dimmer fine^2'']"
    by (simp add: fineChannelAliases_def percent_channel_def new_CoarseChannel_def
        example_json_def)
  have b: "fineChannelAliases pan_channel = []"
    by (simp add: fineChannelAliases_def pan_channel_def new_CoarseChannel_def example_json_def)
  have m1: "maxResolution percent_channel = 3" using a by (simp add: maxResolution_def)
  have m2: "maxResolution pan_channel = 1" using b by (simp add: maxResolution_def)
  from maxDmxBound_up_to_six_bytes[of percent_channel]
  have "maxResolution percent_channel \<le> 6
          \<longrightarrow> maxDmxBound percent_channel = Finite (256 ^ maxResolution percent_channel - 1)"
    by (elim conjE)
  then have 1: "maxResolution percent_channel = 3
                \<and> maxDmxBound percent_channel = Finite 16777215"
    using m1 by simp
  from maxDmxBound_up_to_six_bytes[of pan_channel]
  have "maxResolution pan_channel \<le> 6
          \<longrightarrow> maxDmxBound pan_channel = Finite (256 ^ maxResolution pan_channel - 1)"
    by (elim conjE)
  then have 2: "maxResolution pan_channel = 1 \<and> maxDmxBound pan_channel = Finite 255"
    using m2 by simp
  show ?thesis using 1 2 by simp
qed

text \<open>
  C3, as the claim states it, fails from 7 bytes on: with six fine channel aliases
  \<open>maxResolution\<close> is 7, and \<open>256 ^ 7 - 1\<close> is not a double; the subtraction rounds to
  \<open>256 ^ 7\<close>.
\<close>

theorem maxDmxBound_seven_bytes_counterexample:
  "j_fineChannelAliases (jsonObject seven_byte_channel)
     = Some [''Pan fine'', ''Pan fine^2'', ''Pan fine^3'', ''Pan fine^4'', ''Pan fine^5'',
             ''Pan fine^6'']
   \<and> maxResolution seven_byte_channel = 7
   \<and> maxDmxBound seven_byte_channel = Finite 72057594037927936
   \<and> maxDmxBound seven_byte_channel \<noteq> Finite (256 ^ maxResolution seven_byte_channel - 1)"
proof -
  have a: "j_fineChannelAliases (jsonObject seven_byte_channel)
     = Some [''Pan fine'', ''Pan fine^2'', ''Pan fine^3'', ''Pan fine^4'', ''Pan fine^5'',
             ''Pan fine^6'']"
    by (simp add: seven_byte_channel_def new_CoarseChannel_def example_json_def)
  have m: "maxResolution seven_byte_channel = 7"
    using a by (simp add: maxResolution_def fineChannelAliases_def)
  have b: "maxDmxBound seven_byte_channel = Finite 72057594037927936"
    using m max_value_7 by (simp add: maxDmxBound_def)
  show ?thesis using a m b by simp
qed

subsection \<open>Inversion and crossfading\<close>

text \<open>
  C6. \<open>isInverted\<close> is true exactly when the list of the capabilities that are not steps
  is not empty and every capability in it is inverted. So a channel without
  capabilities, or with step capabilities only, is not inverted, whatever the
  \<open>isInverted\<close> flags of the steps are.
\<close>

theorem isInverted_iff_proportional_inverted:
  assumes "cache_ok X ch" and "fst (capabilities ch) = Inr caps"
  shows "fst (isInverted ch)
           = Inr (filter (\<lambda>cap. \<not> cap_isStep cap) caps \<noteq> []
                  \<and> (\<forall>cap \<in> set (filter (\<lambda>cap. \<not> cap_isStep cap) caps). cap_isInverted cap))
         \<and> ((\<forall>cap \<in> set caps. cap_isStep cap) \<longrightarrow> fst (isInverted ch) = Inr False)"
proof -
  have cl: "capability_list ch = Inr caps" using assms by (rule capabilities_value)
  have r: "fst (isInverted ch) = Inr (inverted caps)"
    using isInverted_ok[OF assms(1)] cl by (simp add: channel_isInverted_def)
  have "filter (\<lambda>cap. \<not> cap_isStep cap) caps = []" if "\<forall>cap \<in> set caps. cap_isStep cap"
    using that by (simp add: filter_empty_conv)
  then show ?thesis using r by (auto simp: inverted_def list_all_iff)
qed

theorem isInverted_iff_proportional_inverted_witness:
  "cache_ok same_type strobe_channel
   \<and> fst (isInverted strobe_channel) = Inr True
   \<and> cache_ok same_type gobo_channel
   \<and> fst (isInverted gobo_channel) = Inr False"
proof -
  let ?closed = "example_Capability ''Shutter'' 1 ((example_capability ''ShutterStrobe'')
                  \<lparr>j_dmxRange := Some (Finite 0, Finite 9), j_shutterEffect := Some ''Closed'', j_isStep := True\<rparr>)"
  let ?strobe = "example_Capability ''Shutter'' 1 ((example_capability ''ShutterStrobe'')
                  \<lparr>j_dmxRange := Some (Finite 10, Finite 249), j_shutterEffect := Some ''Strobe'',
                    j_isInverted := True\<rparr>)"
  let ?open = "example_Capability ''Shutter'' 1 ((example_capability ''ShutterStrobe'')
                  \<lparr>j_dmxRange := Some (Finite 250, Finite 255), j_shutterEffect := Some ''Open'',
                    j_isStep := True, j_isInverted := True\<rparr>)"
  let ?gobo = "example_Capability ''Gobo Wheel'' 1
                ((example_capability ''WheelSlot'')
                   \<lparr>j_wheels := [Some \<lparr>wheel_type = ''Gobo''\<rparr>], j_isStep := True\<rparr>)"
  have ok1: "cache_ok same_type strobe_channel" by (simp add: strobe_channel_def cache_ok_new)
  have ok2: "cache_ok same_type gobo_channel" by (simp add: gobo_channel_def cache_ok_new)
  have c1: "fst (capabilities strobe_channel) = Inr [?closed, ?strobe, ?open]" by code_simp
  have c2: "fst (capabilities gobo_channel) = Inr [?gobo]" by code_simp
  show ?thesis
    using isInverted_iff_proportional_inverted[OF ok1 c1]
      isInverted_iff_proportional_inverted[OF ok2 c2] ok1 ok2
    by (simp add: example_Capability_def example_capability_def)
qed

lemma every_canCrossfadeTo_iff:
  "every_canCrossfadeTo X caps \<longleftrightarrow> (\<forall>i. Suc i < length caps \<longrightarrow> X (caps ! i) (caps ! Suc i))"
proof (induction X caps rule: every_canCrossfadeTo.induct)
  case (3 X cap nxt arr)
  show ?case
  proof
    assume a: "every_canCrossfadeTo X (cap # nxt # arr)"
    show "\<forall>i. Suc i < length (cap # nxt # arr)
            \<longrightarrow> X ((cap # nxt # arr) ! i) ((cap # nxt # arr) ! Suc i)"
    proof (intro allI impI)
      fix i assume i: "Suc i < length (cap # nxt # arr)"
      show "X ((cap # nxt # arr) ! i) ((cap # nxt # arr) ! Suc i)"
      proof (cases i)
        case 0
        then show ?thesis using a by simp
      next
        case (Suc j)
        then show ?thesis using a i "3.IH" by simp
      qed
    qed
  next
    assume a: "\<forall>i. Suc i < length (cap # nxt # arr)
            \<longrightarrow> X ((cap # nxt # arr) ! i) ((cap # nxt # arr) ! Suc i)"
    have "X cap nxt" using a[rule_format, of 0] by simp
    moreover have "X ((nxt # arr) ! i) ((nxt # arr) ! Suc i)" if "Suc i < length (nxt # arr)" for i
      using a[rule_format, of "Suc i"] that by simp
    ultimately show "every_canCrossfadeTo X (cap # nxt # arr)" using "3.IH" by simp
  qed
qed simp_all

lemma classify_NoFunction:
  assumes "cap_type cap = ''NoFunction''"
  shows "classify [cap] = ''NoFunction''"
  using assms
  by (simp add: classify_def channelTypeConstraints_def entry_matches_def plain_def
      strobe_predicate_def)

text \<open>
  C5. With exactly one capability, \<open>canCrossfade\<close> is true exactly when the channel is
  not constant and its type is not \<open>NoFunction\<close>. With two or more capabilities it is true
  exactly when every capability can crossfade to the next one and some capability is
  not a step. A channel whose only capability has the type \<open>NoFunction\<close> cannot
  crossfade. (\<open>X\<close> is the method \<open>canCrossfadeTo\<close> of the capabilities.)
\<close>

theorem canCrossfade_characterised:
  assumes "cache_ok X ch" and "fst (capabilities ch) = Inr caps"
  shows "(length caps = 1 \<longrightarrow>
            fst (canCrossfade X ch)
              = Inr (\<not> isConstant ch \<and> fst (type ch) \<noteq> Inr ''NoFunction''))
         \<and> (2 \<le> length caps \<longrightarrow>
            fst (canCrossfade X ch)
              = Inr ((\<forall>i. Suc i < length caps \<longrightarrow> X (caps ! i) (caps ! Suc i))
                     \<and> (\<exists>cap \<in> set caps. \<not> cap_isStep cap)))
         \<and> ((\<exists>cap. caps = [cap] \<and> cap_type cap = ''NoFunction'') \<longrightarrow>
            fst (canCrossfade X ch) = Inr False)"
proof -
  have cl: "capability_list ch = Inr caps" using assms by (rule capabilities_value)
  have r: "fst (canCrossfade X ch) = Inr (crossfades X (isConstant ch) caps)"
    using canCrossfade_ok[OF assms(1)] cl by (simp add: channel_canCrossfade_def)
  have t: "fst (type ch) = Inr (classify caps)"
    using type_ok(1)[OF assms(1)] cl by (simp add: channel_type_def)
  have one: "fst (canCrossfade X ch)
               = Inr (\<not> isConstant ch \<and> fst (type ch) \<noteq> Inr ''NoFunction'')"
    if "length caps = 1"
    using r t that by (simp add: crossfades_def)
  have many: "fst (canCrossfade X ch)
              = Inr ((\<forall>i. Suc i < length caps \<longrightarrow> X (caps ! i) (caps ! Suc i))
                     \<and> (\<exists>cap \<in> set caps. \<not> cap_isStep cap))"
    if "2 \<le> length caps"
    using r that by (simp add: crossfades_def every_canCrossfadeTo_iff list_ex_iff)
  have nofun: "fst (canCrossfade X ch) = Inr False"
    if "\<exists>cap. caps = [cap] \<and> cap_type cap = ''NoFunction''"
  proof -
    from that obtain cap where c: "caps = [cap]" "cap_type cap = ''NoFunction''" by blast
    then show ?thesis using r classify_NoFunction[OF c(2)] by (simp add: crossfades_def)
  qed
  show ?thesis using one many nofun by blast
qed

theorem canCrossfade_characterised_witness:
  "cache_ok same_type no_function_channel
   \<and> fst (capabilities no_function_channel)
       = Inr [example_Capability ''Reserved'' 1
                ((example_capability ''NoFunction'')\<lparr>j_dmxRange := Some (Finite 0, Finite 255)\<rparr>)]
   \<and> fst (canCrossfade same_type no_function_channel) = Inr False
   \<and> cache_ok same_type strobe_channel
   \<and> length (projr (fst (capabilities strobe_channel))) = 3
   \<and> fst (canCrossfade same_type strobe_channel) = Inr True"
proof -
  let ?nf = "example_Capability ''Reserved'' 1
                ((example_capability ''NoFunction'')\<lparr>j_dmxRange := Some (Finite 0, Finite 255)\<rparr>)"
  let ?closed = "example_Capability ''Shutter'' 1 ((example_capability ''ShutterStrobe'')
                  \<lparr>j_dmxRange := Some (Finite 0, Finite 9), j_shutterEffect := Some ''Closed'', j_isStep := True\<rparr>)"
  let ?strobe = "example_Capability ''Shutter'' 1 ((example_capability ''ShutterStrobe'')
                  \<lparr>j_dmxRange := Some (Finite 10, Finite 249), j_shutterEffect := Some ''Strobe'',
                    j_isInverted := True\<rparr>)"
  let ?open = "example_Capability ''Shutter'' 1 ((example_capability ''ShutterStrobe'')
                  \<lparr>j_dmxRange := Some (Finite 250, Finite 255), j_shutterEffect := Some ''Open'',
                    j_isStep := True, j_isInverted := True\<rparr>)"
  have ok1: "cache_ok same_type no_function_channel"
    by (simp add: no_function_channel_def cache_ok_new)
  have ok2: "cache_ok same_type strobe_channel" by (simp add: strobe_channel_def cache_ok_new)
  have c1: "fst (capabilities no_function_channel) = Inr [?nf]" by code_simp
  have c2: "fst (capabilities strobe_channel) = Inr [?closed, ?strobe, ?open]" by code_simp
  have ty: "cap_type ?nf = ''NoFunction''"
    by (simp add: example_Capability_def example_capability_def)
  have adj: "(\<forall>i. Suc i < length [?closed, ?strobe, ?open]
               \<longrightarrow> same_type ([?closed, ?strobe, ?open] ! i) ([?closed, ?strobe, ?open] ! Suc i))"
    by (simp add: less_Suc_eq same_type_def example_Capability_def example_capability_def)
  have st: "\<not> cap_isStep ?strobe"
    by (simp add: example_Capability_def example_capability_def)
  have "\<exists>cap. [?nf] = [cap] \<and> cap_type cap = ''NoFunction''" using ty by blast
  with canCrossfade_characterised[OF ok1 c1]
  have r1: "fst (canCrossfade same_type no_function_channel) = Inr False" by blast
  have "\<exists>cap \<in> set [?closed, ?strobe, ?open]. \<not> cap_isStep cap" using st by simp
  with canCrossfade_characterised[OF ok2 c2] adj
  have r2: "fst (canCrossfade same_type strobe_channel) = Inr True" by simp
  show ?thesis using ok1 ok2 c1 c2 r1 r2 by simp
qed

subsection \<open>Default and highlight values\<close>



lemma createFromEntityString_error:
  "createFromEntityString v = Inl e \<Longrightarrow> e = ParseError"
  by (auto simp: createFromEntityString_def split: json_value.splits option.splits if_splits)

lemma createFromEntityString_empty: "createFromEntityString (JString []) = Inl ParseError"
  by (simp add: createFromEntityString_def parse_number_def)

lemma raw_default_error: "raw_default ch = Inl e \<Longrightarrow> e = ParseError"
  by (auto simp: raw_default_def Let_def dest: createFromEntityString_error
      split: if_splits sum.splits)

lemma raw_highlight_error: "raw_highlight ch = Inl e \<Longrightarrow> e = ParseError"
  by (auto simp: raw_highlight_def dest: createFromEntityString_error
      split: option.splits if_splits sum.splits)

lemma well_formed_raw_default:
  assumes "well_formed_value (j_defaultValue (jsonObject ch))"
  shows "\<exists>v. raw_default ch = Inr v"
proof (cases "j_defaultValue (jsonObject ch)")
  case None
  then show ?thesis by (simp add: raw_default_def or_zero_def isInteger_def)
next
  case (Some w)
  show ?thesis
  proof (cases w)
    case (JNumber q)
    then show ?thesis using Some assms
      by (simp add: raw_default_def or_zero_def isInteger_def well_formed_value_def)
  next
    case (JString s)
    then have "s \<noteq> []" using Some assms createFromEntityString_empty
      by (auto simp: well_formed_value_def)
    then show ?thesis using Some JString assms
      by (auto simp: raw_default_def or_zero_def isInteger_def well_formed_value_def
          split: sum.splits)
  qed
qed

lemma well_formed_raw_highlight:
  assumes "well_formed_value (j_highlightValue (jsonObject ch))"
  shows "\<exists>v. raw_highlight ch = Inr v"
proof (cases "j_highlightValue (jsonObject ch)")
  case None
  then show ?thesis by (simp add: raw_highlight_def)
next
  case (Some w)
  show ?thesis
  proof (cases w)
    case (JNumber q)
    then show ?thesis using Some assms
      by (simp add: raw_highlight_def isInteger_def well_formed_value_def)
  next
    case (JString s)
    then show ?thesis using Some assms
      by (auto simp: raw_highlight_def isInteger_def well_formed_value_def split: sum.splits)
  qed
qed

lemma value_at_RangeError_iff:
  assumes "\<And>e. table = Inl e \<Longrightarrow> e = ParseError"
  shows "value_at r ch table = Inl RangeError
           \<longleftrightarrow> \<not> (r \<in> \<int> \<and> 1 \<le> r \<and> r \<le> of_nat (maxResolution ch))"
  using assms by (cases table) (auto simp: value_at_def frac_eq_0_iff)

lemma value_at_proper:
  assumes "r \<in> \<int>" "1 \<le> r" "r \<le> of_nat (maxResolution ch)"
  shows "value_at r ch (Inr (value_table v ch))
           = Inr (Some (scaled v (declared_resolution ch) (nat \<lfloor>r\<rfloor>)))"
proof -
  from assms(1) obtain k :: int where k: "r = of_int k" by (auto elim: Ints_cases)
  with assms(2,3) have "1 \<le> k" "k \<le> int (maxResolution ch)" by simp_all
  then have "value_at (of_nat (nat k)) ch (Inr (value_table v ch))
               = Inr (Some (scaled v (declared_resolution ch) (nat k)))"
    by (intro value_at_in_range) simp_all
  then show ?thesis using k \<open>1 \<le> k\<close> by simp
qed

text \<open>
  C4. \<open>getDefaultValueWithResolution\<close> and \<open>getHighlightValueWithResolution\<close> throw a
  \<open>RangeError\<close> exactly when the resolution is not an integer from 1 to \<open>maxResolution\<close>.
  For such an integer, and a record whose default and highlight values are well
  formed, both return a value.
\<close>

theorem resolution_getters_RangeError_iff:
  assumes "cache_ok X ch"
  shows "(fst (getDefaultValueWithResolution r ch) = Inl RangeError
            \<longleftrightarrow> \<not> (r \<in> \<int> \<and> 1 \<le> r \<and> r \<le> of_nat (maxResolution ch)))
         \<and> (fst (getHighlightValueWithResolution r ch) = Inl RangeError
            \<longleftrightarrow> \<not> (r \<in> \<int> \<and> 1 \<le> r \<and> r \<le> of_nat (maxResolution ch)))
         \<and> (well_formed ch \<and> r \<in> \<int> \<and> 1 \<le> r \<and> r \<le> of_nat (maxResolution ch) \<longrightarrow>
              (\<exists>v. fst (getDefaultValueWithResolution r ch) = Inr (Some v))
              \<and> (\<exists>v. fst (getHighlightValueWithResolution r ch) = Inr (Some v)))"
proof -
  have d: "fst (getDefaultValueWithResolution r ch) = value_at r ch (default_table ch)"
    using getDefaultValueWithResolution_ok[OF assms] by simp
  have h: "fst (getHighlightValueWithResolution r ch) = value_at r ch (highlight_table ch)"
    using getHighlightValueWithResolution_ok[OF assms] by simp
  have de: "e = ParseError" if "default_table ch = Inl e" for e
    using that raw_default_error[of ch] by (auto simp: default_table_def split: sum.splits)
  have he: "e = ParseError" if "highlight_table ch = Inl e" for e
    using that raw_highlight_error[of ch] by (auto simp: highlight_table_def split: sum.splits)
  have 1: "fst (getDefaultValueWithResolution r ch) = Inl RangeError
            \<longleftrightarrow> \<not> (r \<in> \<int> \<and> 1 \<le> r \<and> r \<le> of_nat (maxResolution ch))"
    unfolding d using de by (rule value_at_RangeError_iff)
  have 2: "fst (getHighlightValueWithResolution r ch) = Inl RangeError
            \<longleftrightarrow> \<not> (r \<in> \<int> \<and> 1 \<le> r \<and> r \<le> of_nat (maxResolution ch))"
    unfolding h using he by (rule value_at_RangeError_iff)
  have 3: "(\<exists>v. fst (getDefaultValueWithResolution r ch) = Inr (Some v))
           \<and> (\<exists>v. fst (getHighlightValueWithResolution r ch) = Inr (Some v))"
    if wf: "well_formed ch" and r: "r \<in> \<int>" "1 \<le> r" "r \<le> of_nat (maxResolution ch)"
  proof -
    from wf obtain dv hv where "raw_default ch = Inr dv" "raw_highlight ch = Inr hv"
      using well_formed_raw_default[of ch] well_formed_raw_highlight[of ch]
      by (auto simp: well_formed_def)
    then have "default_table ch = Inr (value_table dv ch)"
      "highlight_table ch = Inr (value_table hv ch)"
      by (simp_all add: default_table_def highlight_table_def)
    then show ?thesis using d h value_at_proper[OF r] by simp
  qed
  show ?thesis using 1 2 3 by blast
qed

theorem resolution_getters_RangeError_iff_witness:
  "cache_ok same_type percent_channel \<and> well_formed percent_channel
   \<and> maxResolution percent_channel = 3
   \<and> fst (getDefaultValueWithResolution 2 percent_channel) \<noteq> Inl RangeError
   \<and> (\<exists>v. fst (getDefaultValueWithResolution 2 percent_channel) = Inr (Some v))
   \<and> (\<exists>v. fst (getHighlightValueWithResolution 2 percent_channel) = Inr (Some v))
   \<and> fst (getDefaultValueWithResolution 4 percent_channel) = Inl RangeError
   \<and> fst (getHighlightValueWithResolution (5 / 2) percent_channel) = Inl RangeError
   \<and> fst (getHighlightValueWithResolution 0 percent_channel) = Inl RangeError"
proof -
  have ok: "cache_ok same_type percent_channel"
    by (simp add: percent_channel_def cache_ok_new)
  have wf: "well_formed percent_channel" by code_simp
  have m: "maxResolution percent_channel = 3"
    by (simp add: maxResolution_def fineChannelAliases_def percent_channel_def
        new_CoarseChannel_def example_json_def)
  have i: "(5 / 2 :: rat) \<notin> \<int>"
  proof
    assume "(5 / 2 :: rat) \<in> \<int>"
    then obtain k :: int where "(5 / 2 :: rat) = of_int k" by (auto elim: Ints_cases)
    then have "(of_int 5 :: rat) = of_int (2 * k)" by simp
    then have "(5 :: int) = 2 * k" by (simp only: of_int_eq_iff)
    then show False by presburger
  qed
  show ?thesis
    using resolution_getters_RangeError_iff[OF ok, of 2]
      resolution_getters_RangeError_iff[OF ok, of 4]
      resolution_getters_RangeError_iff[OF ok, of "5 / 2"]
      resolution_getters_RangeError_iff[OF ok, of 0] ok wf m i
    by simp
qed







text \<open>
  C10. Without a \<open>defaultValue\<close> field, \<open>hasDefaultValue\<close> is false,
  \<open>getDefaultValueWithResolution\<close> returns 0 at every resolution from 1 to
  \<open>maxResolution\<close>, and \<open>defaultValue\<close> returns 0.
\<close>

theorem absent_defaultValue_is_zero:
  assumes "cache_ok X ch" and "j_defaultValue (jsonObject ch) = None"
  shows "\<not> hasDefaultValue ch
         \<and> (\<forall>r. 1 \<le> r \<and> r \<le> maxResolution ch \<longrightarrow>
               fst (getDefaultValueWithResolution (of_nat r) ch) = Inr (Some (Finite 0)))
         \<and> fst (defaultValue ch) = Inr (Some (Finite 0))"
proof -
  have rd: "raw_default ch = Inr (Finite 0)"
    using assms(2) by (simp add: raw_default_def or_zero_def isInteger_def number_of_def)
  have g: "fst (getDefaultValueWithResolution (of_nat r) ch) = Inr (Some (Finite 0))"
    if "1 \<le> r" "r \<le> maxResolution ch" for r
    using getDefaultValueWithResolution_ok[OF assms(1), of "of_nat r"] rd
      value_at_in_range[OF that]
    by (simp add: default_table_def scaled_def round_double_def)
  have "1 \<le> maxResolution ch" by (simp add: maxResolution_def)
  then have "fst (defaultValue ch) = Inr (Some (Finite 0))"
    unfolding defaultValue_def by (intro g) simp_all
  then show ?thesis using g assms(2) by (simp add: hasDefaultValue_def)
qed

theorem absent_defaultValue_is_zero_witness:
  "cache_ok same_type fine_channel
   \<and> j_defaultValue (jsonObject fine_channel) = None
   \<and> maxResolution fine_channel = 2
   \<and> \<not> hasDefaultValue fine_channel
   \<and> fst (getDefaultValueWithResolution 1 fine_channel) = Inr (Some (Finite 0))
   \<and> fst (getDefaultValueWithResolution 2 fine_channel) = Inr (Some (Finite 0))
   \<and> fst (defaultValue fine_channel) = Inr (Some (Finite 0))"
proof -
  have ok: "cache_ok same_type fine_channel" by (simp add: fine_channel_def cache_ok_new)
  have dv: "j_defaultValue (jsonObject fine_channel) = None"
    by (simp add: fine_channel_def new_CoarseChannel_def example_json_def)
  have m: "maxResolution fine_channel = 2"
    by (simp add: maxResolution_def fineChannelAliases_def fine_channel_def
        new_CoarseChannel_def example_json_def)
  note t = absent_defaultValue_is_zero[OF ok dv]
  from t have a: "\<forall>r. 1 \<le> r \<and> r \<le> maxResolution fine_channel \<longrightarrow>
               fst (getDefaultValueWithResolution (of_nat r) fine_channel) = Inr (Some (Finite 0))"
    by blast
  have r1: "fst (getDefaultValueWithResolution 1 fine_channel) = Inr (Some (Finite 0))"
    using a[rule_format, of 1] m by simp
  have r2: "fst (getDefaultValueWithResolution 2 fine_channel) = Inr (Some (Finite 0))"
    using a[rule_format, of 2] m by simp
  show ?thesis using t ok dv m r1 r2 by simp
qed

subsection \<open>The singular capability\<close>

text \<open>
  C8, as the code has it. A record with a singular \<open>capability\<close> field gives exactly one
  capability. When the field declares no DMX range, the range is the full range of the
  channel's declared resolution, from 0 to \<open>Math.pow(256, dmxValueResolution) - 1\<close>,
  which is \<open>256 ^ dmxValueResolution - 1\<close> as long as \<open>dmxValueResolution\<close> is at most 6
  (above, the subtraction rounds in doubles). That is the range from 0 to \<open>maxDmxBound\<close>
  when \<open>dmxValueResolution\<close> equals \<open>maxResolution\<close>, as it does when the record declares
  no \<open>dmxValueResolution\<close>.
\<close>

theorem singular_capability_declared_range:
  assumes "cache_ok X ch" and "j_capability (jsonObject ch) = Some cap"
  shows "\<exists>c. fst (capabilities ch) = Inr [c]
           \<and> (j_dmxRange cap = None \<longrightarrow>
                cap_dmxRange c
                  = Some (Finite 0, minus_1 (Math_pow_256 (fst (dmxValueResolution ch)))))
           \<and> (j_dmxRange cap = None \<and> fst (dmxValueResolution ch) \<le> 6 \<longrightarrow>
                cap_dmxRange c = Some (Finite 0, Finite (256 ^ fst (dmxValueResolution ch) - 1)))
           \<and> (j_dmxRange cap = None \<and> fst (dmxValueResolution ch) = maxResolution ch \<longrightarrow>
                cap_dmxRange c = Some (Finite 0, maxDmxBound ch))
           \<and> (j_dmxValueResolution (jsonObject ch) = None \<longrightarrow>
                fst (dmxValueResolution ch) = maxResolution ch)"
proof -
  have d: "fst (dmxValueResolution ch) = declared_resolution ch"
    using dmxValueResolution_ok(1)[OF assms(1)] .
  let ?c = "\<lparr>cap_jsonObject =
               assign_dmxRange (Finite 0, minus_1 (Math_pow_256 (declared_resolution ch))) cap,
             cap_resolution = declared_resolution ch, cap_channel = key ch\<rparr>"
  have c: "fst (capabilities ch) = Inr [?c]"
    using capabilities_ok(1)[OF assms(1)] assms(2) by (simp add: capability_list_def)
  have r: "cap_dmxRange ?c = Some (Finite 0, minus_1 (Math_pow_256 (declared_resolution ch)))"
    if "j_dmxRange cap = None"
    using that by (simp add: assign_dmxRange_def)
  have s: "minus_1 (Math_pow_256 (declared_resolution ch))
             = Finite (256 ^ declared_resolution ch - 1)"
    if "declared_resolution ch \<le> 6"
    using that by (rule max_value_small)
  have m: "declared_resolution ch = maxResolution ch"
    if "j_dmxValueResolution (jsonObject ch) = None"
    using that by (simp add: declared_resolution_def)
  have props: "(j_dmxRange cap = None \<longrightarrow>
                cap_dmxRange ?c
                  = Some (Finite 0, minus_1 (Math_pow_256 (declared_resolution ch))))
           \<and> (j_dmxRange cap = None \<and> declared_resolution ch \<le> 6 \<longrightarrow>
                cap_dmxRange ?c = Some (Finite 0, Finite (256 ^ declared_resolution ch - 1)))
           \<and> (j_dmxRange cap = None \<and> declared_resolution ch = maxResolution ch \<longrightarrow>
                cap_dmxRange ?c = Some (Finite 0, maxDmxBound ch))
           \<and> (j_dmxValueResolution (jsonObject ch) = None \<longrightarrow>
                declared_resolution ch = maxResolution ch)"
    using r s m by (auto simp: maxDmxBound_def)
  show ?thesis unfolding d
    by (rule exI[of _ ?c], rule conjI, rule c, rule props)
qed

theorem singular_capability_declared_range_witness:
  "cache_ok same_type fine_channel
   \<and> j_capability (jsonObject fine_channel) = Some (example_capability ''Intensity'')
   \<and> j_dmxRange (example_capability ''Intensity'') = None
   \<and> j_dmxValueResolution (jsonObject fine_channel) = None
   \<and> fst (dmxValueResolution fine_channel) = 2
   \<and> (\<exists>c. fst (capabilities fine_channel) = Inr [c]
          \<and> cap_dmxRange c = Some (Finite 0, Finite 65535)
          \<and> maxDmxBound fine_channel = Finite 65535)"
proof -
  have ok: "cache_ok same_type fine_channel" by (simp add: fine_channel_def cache_ok_new)
  have cap: "j_capability (jsonObject fine_channel) = Some (example_capability ''Intensity'')"
    by (simp add: fine_channel_def new_CoarseChannel_def example_json_def)
  have rg: "j_dmxRange (example_capability ''Intensity'') = None"
    by (simp add: example_capability_def)
  have dr: "j_dmxValueResolution (jsonObject fine_channel) = None"
    by (simp add: fine_channel_def new_CoarseChannel_def example_json_def)
  have mr: "maxResolution fine_channel = 2"
    by (simp add: maxResolution_def fineChannelAliases_def fine_channel_def
        new_CoarseChannel_def example_json_def)
  from singular_capability_declared_range[OF ok cap] obtain c where
    allc: "fst (capabilities fine_channel) = Inr [c]
       \<and> (j_dmxRange (example_capability ''Intensity'') = None \<longrightarrow>
            cap_dmxRange c
              = Some (Finite 0, minus_1 (Math_pow_256 (fst (dmxValueResolution fine_channel)))))
       \<and> (j_dmxRange (example_capability ''Intensity'') = None
            \<and> fst (dmxValueResolution fine_channel) \<le> 6 \<longrightarrow>
            cap_dmxRange c
              = Some (Finite 0, Finite (256 ^ fst (dmxValueResolution fine_channel) - 1)))
       \<and> (j_dmxRange (example_capability ''Intensity'') = None
            \<and> fst (dmxValueResolution fine_channel) = maxResolution fine_channel \<longrightarrow>
            cap_dmxRange c = Some (Finite 0, maxDmxBound fine_channel))
       \<and> (j_dmxValueResolution (jsonObject fine_channel) = None \<longrightarrow>
            fst (dmxValueResolution fine_channel) = maxResolution fine_channel)" ..
  from allc have c: "fst (capabilities fine_channel) = Inr [c]" by (elim conjE)
  from allc have small: "j_dmxRange (example_capability ''Intensity'') = None
                  \<and> fst (dmxValueResolution fine_channel) \<le> 6 \<longrightarrow>
                cap_dmxRange c
                  = Some (Finite 0, Finite (256 ^ fst (dmxValueResolution fine_channel) - 1))"
    by (elim conjE)
  from allc have bound: "j_dmxRange (example_capability ''Intensity'') = None
                  \<and> fst (dmxValueResolution fine_channel) = maxResolution fine_channel \<longrightarrow>
                cap_dmxRange c = Some (Finite 0, maxDmxBound fine_channel)"
    by (elim conjE)
  from allc have d: "j_dmxValueResolution (jsonObject fine_channel) = None \<longrightarrow>
                fst (dmxValueResolution fine_channel) = maxResolution fine_channel"
    by (elim conjE)
  have d2: "fst (dmxValueResolution fine_channel) = 2" using d dr mr by simp
  have r1: "cap_dmxRange c = Some (Finite 0, Finite 65535)" using small rg d2 by simp
  have r2: "cap_dmxRange c = Some (Finite 0, maxDmxBound fine_channel)"
    using bound rg d2 mr by simp
  have mb: "maxDmxBound fine_channel = Finite 65535" using r1 r2 by simp
  have "fst (capabilities fine_channel) = Inr [c]
          \<and> cap_dmxRange c = Some (Finite 0, Finite 65535)
          \<and> maxDmxBound fine_channel = Finite 65535"
    using c r1 mb by simp
  then have "\<exists>c. fst (capabilities fine_channel) = Inr [c]
          \<and> cap_dmxRange c = Some (Finite 0, Finite 65535)
          \<and> maxDmxBound fine_channel = Finite 65535" ..
  then show ?thesis using ok cap rg dr d2 by simp
qed

text \<open>
  C8, as the claim states it, fails where the declared resolution is not
  \<open>maxResolution\<close>: a channel with one fine channel alias, \<open>dmxValueResolution\<close> of
  \<open>8bit\<close> and a singular capability without a DMX range gives the capability the range
  from 0 to 255, and its \<open>maxDmxBound\<close> is 65535.
\<close>

theorem singular_capability_range_counterexample:
  "j_capability (jsonObject fine_8bit_channel) = Some (example_capability ''Intensity'')
   \<and> j_dmxRange (example_capability ''Intensity'') = None
   \<and> fst (capabilities fine_8bit_channel) = Inr [intensity_8bit_capability]
   \<and> cap_dmxRange intensity_8bit_capability = Some (Finite 0, Finite 255)
   \<and> maxResolution fine_8bit_channel = 2
   \<and> maxDmxBound fine_8bit_channel = Finite 65535
   \<and> cap_dmxRange intensity_8bit_capability
       \<noteq> Some (Finite 0, maxDmxBound fine_8bit_channel)"
proof -
  have 1: "j_capability (jsonObject fine_8bit_channel) = Some (example_capability ''Intensity'')"
    by (simp add: fine_8bit_channel_def new_CoarseChannel_def example_json_def)
  have 2: "j_dmxRange (example_capability ''Intensity'') = None"
    by (simp add: example_capability_def)
  have 3: "fst (capabilities fine_8bit_channel) = Inr [intensity_8bit_capability]"
    by code_simp
  have 4: "cap_dmxRange intensity_8bit_capability = Some (Finite 0, Finite 255)"
    by (simp add: intensity_8bit_capability_def)
  have 5: "maxResolution fine_8bit_channel = 2"
    by (simp add: maxResolution_def fineChannelAliases_def fine_8bit_channel_def
        new_CoarseChannel_def example_json_def)
  have 6: "maxDmxBound fine_8bit_channel = Finite 65535"
    using 5 max_value_small[of 2] by (simp add: maxDmxBound_def)
  show ?thesis using 1 2 3 4 5 6 by simp
qed

subsection \<open>Replacing the record\<close>

text \<open>
  C9. Assigning a new \<open>jsonObject\<close> replaces the record and empties the cache, and changes
  nothing else: key and fixture stay, and the object is in the very state of a channel
  newly constructed from the key, the new record and the fixture. So every getter
  returns from it what it returns from the new channel, whatever the cache held before.
\<close>

theorem set_jsonObject_gives_fresh_channel:
  fixes ch :: "'f CoarseChannel"
  shows "set_jsonObject j ch = new_CoarseChannel (key ch) j (fixture ch)
         \<and> key (set_jsonObject j ch) = key ch
         \<and> fixture (set_jsonObject j ch) = fixture ch
         \<and> jsonObject (set_jsonObject j ch) = j
         \<and> cache (set_jsonObject j ch) = empty_cache
         \<and> cache_ok X (set_jsonObject j ch)
         \<and> fst (type (set_jsonObject j ch)) = fst (type (new_CoarseChannel (key ch) j (fixture ch)))
         \<and> fst (color (set_jsonObject j ch)) = fst (color (new_CoarseChannel (key ch) j (fixture ch)))
         \<and> fst (capabilities (set_jsonObject j ch))
             = fst (capabilities (new_CoarseChannel (key ch) j (fixture ch)))
         \<and> fst (fineChannels (set_jsonObject j ch))
             = fst (fineChannels (new_CoarseChannel (key ch) j (fixture ch)))
         \<and> fst (dmxValueResolution (set_jsonObject j ch))
             = fst (dmxValueResolution (new_CoarseChannel (key ch) j (fixture ch)))
         \<and> fst (getDefaultValueWithResolution r (set_jsonObject j ch))
             = fst (getDefaultValueWithResolution r (new_CoarseChannel (key ch) j (fixture ch)))
         \<and> fst (getHighlightValueWithResolution r (set_jsonObject j ch))
             = fst (getHighlightValueWithResolution r (new_CoarseChannel (key ch) j (fixture ch)))
         \<and> fst (isInverted (set_jsonObject j ch))
             = fst (isInverted (new_CoarseChannel (key ch) j (fixture ch)))
         \<and> fst (canCrossfade X (set_jsonObject j ch))
             = fst (canCrossfade X (new_CoarseChannel (key ch) j (fixture ch)))
         \<and> fst (switchingChannelAliases (set_jsonObject j ch))
             = fst (switchingChannelAliases (new_CoarseChannel (key ch) j (fixture ch)))
         \<and> fst (switchingChannels (set_jsonObject j ch))
             = fst (switchingChannels (new_CoarseChannel (key ch) j (fixture ch)))"
proof -
  have eq: "set_jsonObject j ch = new_CoarseChannel (key ch) j (fixture ch)"
    by (cases ch) (simp add: set_jsonObject_def new_CoarseChannel_def)
  have sel: "key (set_jsonObject j ch) = key ch" "fixture (set_jsonObject j ch) = fixture ch"
    "jsonObject (set_jsonObject j ch) = j" "cache (set_jsonObject j ch) = empty_cache"
    by (simp_all add: set_jsonObject_def)
  have ok: "cache_ok X (set_jsonObject j ch)" by (rule cache_ok_set)
  show ?thesis by (simp only: sel ok simp_thms) (simp only: eq simp_thms)
qed

theorem set_jsonObject_gives_fresh_channel_witness:
  "fst (type pan_channel) = Inr ''Pan''
   \<and> c_type (cache (snd (type pan_channel))) = Some ''Pan''
   \<and> fst (type (snd (type pan_channel))) = Inr ''Pan''
   \<and> cache (set_jsonObject (jsonObject gobo_channel) (snd (type pan_channel))) = empty_cache
   \<and> key (set_jsonObject (jsonObject gobo_channel) (snd (type pan_channel))) = ''Pan''
   \<and> fst (type (set_jsonObject (jsonObject gobo_channel) (snd (type pan_channel)))) = Inr ''Gobo''"
proof -
  have 1: "fst (type pan_channel) = Inr ''Pan''" by code_simp
  have 2: "c_type (cache (snd (type pan_channel))) = Some ''Pan''" by code_simp
  have 3: "fst (type (snd (type pan_channel))) = Inr ''Pan''" by code_simp
  have k: "key (snd (type pan_channel)) = ''Pan''" by code_simp
  have f: "fixture (snd (type pan_channel)) = ()" by simp
  have g: "fst (type (new_CoarseChannel ''Pan'' (jsonObject gobo_channel) ())) = Inr ''Gobo''"
    by code_simp
  let ?ch = "snd (type pan_channel)"
  note t = set_jsonObject_gives_fresh_channel[of "jsonObject gobo_channel" ?ch same_type 1]
  from t have a: "cache (set_jsonObject (jsonObject gobo_channel) ?ch) = empty_cache"
    by (elim conjE)
  from t have b: "key (set_jsonObject (jsonObject gobo_channel) ?ch) = key ?ch"
    by (elim conjE)
  from t have c: "fst (type (set_jsonObject (jsonObject gobo_channel) ?ch))
                    = fst (type (new_CoarseChannel (key ?ch) (jsonObject gobo_channel) (fixture ?ch)))"
    by (elim conjE)
  have "fst (type (set_jsonObject (jsonObject gobo_channel) ?ch)) = Inr ''Gobo''"
    using c k g by simp
  then show ?thesis using 1 2 3 a b k by simp
qed

end
